theory Spec2Isabelle
  imports Main "HOL-Library.Char_ord" "HOL-Library.List_Lexorder"
begin

section \<open>Strings and numbers as the script uses them\<close>

text \<open>
  A Python \<open>str\<close> is modelled as a \<open>string\<close>, one \<open>char\<close> per character.  The
  script only measures, slices and copies the text of a document, so there a \<open>char\<close>
  stands for any character; letters, digits, case and white space are those of ASCII,
  which is what file names and company names are taken to be made of.  Python integers
  are unbounded, so counters are \<open>int\<close> and lengths and indices are \<open>nat\<close>.
\<close>

definition digit_char :: "nat \<Rightarrow> char" where
  "digit_char d = char_of (48 + d)"

text \<open>\<open>str(n)\<close> for a non-negative integer: its decimal digits, most significant first.\<close>

fun str_nat :: "nat \<Rightarrow> string" where
  "str_nat n = (if n < 10 then [digit_char n] else str_nat (n div 10) @ [digit_char (n mod 10)])"

declare str_nat.simps [simp del]

text \<open>\<open>str(i)\<close> and \<open>f"{i}"\<close> for any integer.\<close>

definition str_int :: "int \<Rightarrow> string" where
  "str_int i = (if i < 0 then CHR ''-'' # str_nat (nat (- i)) else str_nat (nat i))"

text \<open>\<open>s.replace(a, b)\<close> for single characters \<open>a\<close> and \<open>b\<close>.\<close>

definition replace_char :: "char \<Rightarrow> char \<Rightarrow> string \<Rightarrow> string" where
  "replace_char a b s = map (\<lambda>c. if c = a then b else c) s"

definition is_digit :: "char \<Rightarrow> bool" where
  "is_digit c = (CHR ''0'' \<le> c \<and> c \<le> CHR ''9'')"

definition is_upper :: "char \<Rightarrow> bool" where
  "is_upper c = (CHR ''A'' \<le> c \<and> c \<le> CHR ''Z'')"

definition is_lower :: "char \<Rightarrow> bool" where
  "is_lower c = (CHR ''a'' \<le> c \<and> c \<le> CHR ''z'')"

definition is_alpha :: "char \<Rightarrow> bool" where
  "is_alpha c = (is_upper c \<or> is_lower c)"

definition upper_char :: "char \<Rightarrow> char" where
  "upper_char c = (if is_lower c then char_of (of_char c - (32::nat)) else c)"

definition lower_char :: "char \<Rightarrow> char" where
  "lower_char c = (if is_upper c then char_of (of_char c + (32::nat)) else c)"

text \<open>\<open>s.upper()\<close>.\<close>

definition upper :: "string \<Rightarrow> string" where
  "upper s = map upper_char s"

text \<open>
  \<open>s.title()\<close>: a letter that follows a letter is lower-cased, any other letter is
  upper-cased, and every other character is kept and ends the word.
\<close>

fun title_from :: "bool \<Rightarrow> string \<Rightarrow> string" where
  "title_from previous_is_cased [] = []"
| "title_from previous_is_cased (c # cs) =
     (if is_alpha c
      then (if previous_is_cased then lower_char c else upper_char c) # title_from True cs
      else c # title_from False cs)"

definition title :: "string \<Rightarrow> string" where
  "title s = title_from False s"

section \<open>The chunker\<close>

text \<open>
  A PDF reference as the collector stores it (\<open>path\<close>, \<open>country\<close>, \<open>filename\<close>);
  the per-company driver adds the key \<open>company\<close> before it calls the chunker.
\<close>

record pdf_ref =
  pdf_path :: string
  pdf_country :: string
  pdf_filename :: string

record pdf_info = pdf_ref +
  pdf_company :: string

record chunk =
  ch_text :: string
  ch_chunk_id :: string
  ch_source_file :: string
  ch_company :: string
  ch_country :: string
  ch_report_year :: string

text \<open>The default arguments of \<open>create_chunks_from_text\<close>; its only caller passes neither.\<close>

definition chunk_size :: nat where
  "chunk_size = 1500"

definition chunk_overlap :: nat where
  "chunk_overlap = 200"

text \<open>
  \<open>re.search(r'20\d{2}', filename)\<close>: the leftmost \<open>20\<close> followed by two digits, or
  \<open>None\<close>.
\<close>

fun year_search :: "string \<Rightarrow> string option" where
  "year_search (a # b # c # d # rest) =
     (if a = CHR ''2'' \<and> b = CHR ''0'' \<and> is_digit c \<and> is_digit d then Some [a, b, c, d]
      else year_search (b # c # d # rest))"
| "year_search _ = None"

text \<open>
  The loop \<open>for i in range(0, len(text), chunk_size - chunk_overlap)\<close>, with \<open>i\<close> the
  loop variable and \<open>chunks\<close> the list built so far.
\<close>

function chunk_loop :: "string \<Rightarrow> pdf_info \<Rightarrow> string \<Rightarrow> nat \<Rightarrow> chunk list \<Rightarrow> chunk list" where
  "chunk_loop doc_text info report_year i chunks =
     (if i < length doc_text then
        (let chunk_text = take chunk_size (drop i doc_text) in
         if length chunk_text < 100
         then chunk_loop doc_text info report_year (i + (chunk_size - chunk_overlap)) chunks
         else chunk_loop doc_text info report_year (i + (chunk_size - chunk_overlap))
                (chunks @ [\<lparr>ch_text = chunk_text,
                            ch_chunk_id = str_nat (length chunks + 1),
                            ch_source_file = pdf_filename info,
                            ch_company = pdf_company info,
                            ch_country = pdf_country info,
                            ch_report_year = report_year\<rparr>]))
      else chunks)"
  by pat_completeness auto
termination
  by (relation "measure (\<lambda>(doc_text, info, report_year, i, chunks). length doc_text - i)")
     (auto simp: chunk_size_def chunk_overlap_def)

declare chunk_loop.simps [simp del]

definition create_chunks_from_text :: "string \<Rightarrow> pdf_info \<Rightarrow> chunk list" where
  "create_chunks_from_text doc_text info =
     (let report_year = (case year_search (pdf_filename info) of Some y \<Rightarrow> y | None \<Rightarrow> ''2024'')
      in if doc_text = [] then [] else chunk_loop doc_text info report_year 0 [])"

section \<open>The question synthesizer\<close>

text \<open>Exceptions of the Python code that the script catches or lets escape.\<close>

datatype py_error = IndexError | KeyError | TypeError | AttributeError | OSError

definition bind_err :: "'e + 'a \<Rightarrow> ('a \<Rightarrow> 'e + 'b) \<Rightarrow> 'e + 'b" where
  "bind_err m f = (case m of Inl e \<Rightarrow> Inl e | Inr a \<Rightarrow> f a)"

text \<open>
  What \<open>json.loads\<close> returns: \<open>None\<close>, a bool, a number, a string, a list or a dict (its
  items in insertion order, keys distinct).  No operation of the script looks into a
  number, so integers stand for all of them.
\<close>

datatype json =
    JNull
  | JBool bool
  | JNum int
  | JStr string
  | JArr "json list"
  | JObj "(string \<times> json) list"

text \<open>
  One call of the generation service, as far as \<open>generate_questions\<close> can tell the
  outcomes apart: the request or the reading of \<open>response.choices[0].message.content\<close>
  raises; the cleaned response text is not JSON (\<open>json.JSONDecodeError\<close>); or
  \<open>json.loads\<close> returns a value.
\<close>

datatype api_outcome = Raised | NotJson | Parsed json

text \<open>The parts of the prompt template that vary from call to call.\<close>

record prompt =
  pr_num_questions :: int
  pr_context :: string
  pr_text :: string

text \<open>
  The generation service: its answer to a prompt, given how many requests came before
  (the requests are sampled at temperature 0.7, so equal prompts may get different
  answers).
\<close>

type_synonym openai_client = "nat \<Rightarrow> prompt \<Rightarrow> api_outcome"

record metadata =
  md_difficulty :: json
  md_company :: string
  md_report_year :: string
  md_source_file :: string
  md_source_chunk_id :: string
  md_source_type :: string
  md_category :: json

record question =
  q_id :: string
  q_question :: json
  q_options :: json
  q_answer :: json
  q_metadata :: metadata

text \<open>The argument \<open>data\<close>: a chunk (a dict with the key \<open>text\<close>) or a company name.\<close>

datatype synth_input = ChunkData chunk | CompanyName string

record gen_call =
  gc_data :: synth_input
  gc_num_questions :: int

record summary_row =
  sr_company :: string
  sr_code :: string
  sr_country :: string
  sr_pdfs_processed :: nat
  sr_questions_generated :: nat
  sr_categories :: string

datatype payload = QuestionLines "question list" | SummaryTable "summary_row list"

text \<open>
  The effects a run leaves behind: the calls of the synthesizer (each sends one request
  to the generation service) and the files written, both in order.
\<close>

record world =
  w_calls :: "gen_call list"
  w_files :: "(string \<times> payload) list"

text \<open>The local variables \<open>generate_questions\<close> sets from \<open>data\<close> before it builds the prompt.\<close>

record source_info =
  si_is_chunk :: bool
  si_company_name :: string
  si_country :: string
  si_report_year :: string
  si_source_file :: string
  si_chunk_id :: string
  si_text :: string
  si_prompt_context :: string

fun source_of :: "synth_input \<Rightarrow> source_info" where
  "source_of (ChunkData data) =
     \<lparr>si_is_chunk = True,
      si_company_name = ch_company data,
      si_country = ch_country data,
      si_report_year = ch_report_year data,
      si_source_file = ch_source_file data,
      si_chunk_id = ch_chunk_id data,
      si_text = ch_text data,
      si_prompt_context =
        ''the following text from a '' @ ch_country data @ '' company financial report''\<rparr>"
| "source_of (CompanyName data) =
     \<lparr>si_is_chunk = False,
      si_company_name = data,
      si_country = ''GCC'',
      si_report_year = ''2024'',
      si_source_file = replace_char CHR '' '' CHR ''_'' data @ ''_Report_2024.pdf'',
      si_chunk_id = ''0'',
      si_text = ''Information about key executives and board members at '' @ data
                @ '', a company from '' @ ''GCC'' @ ''.'',
      si_prompt_context = ''key personnel at '' @ data @ '' (a company from '' @ ''GCC'' @ '')''\<rparr>"

definition source_type_mapping :: "(string \<times> string) list" where
  "source_type_mapping =
     [(''Financial Performance'', ''financial_data''),
      (''Market Position'', ''market_data''),
      (''Risk Factors'', ''risk_data''),
      (''Corporate Governance'', ''governance_data''),
      (''Business Strategy'', ''business_strategy''),
      (''Operational Metrics'', ''operational_data''),
      (''Sustainability'', ''sustainability''),
      (''Key Personnel'', ''personnel_data'')]"

text \<open>\<open>question.get(key, default)\<close>: only a dict has the method.\<close>

fun dict_get :: "json \<Rightarrow> string \<Rightarrow> json \<Rightarrow> py_error + json" where
  "dict_get (JObj items) key dflt = Inr (case map_of items key of Some v \<Rightarrow> v | None \<Rightarrow> dflt)"
| "dict_get _ key dflt = Inl AttributeError"

text \<open>\<open>question[key]\<close> with a string key.\<close>

fun dict_item :: "json \<Rightarrow> string \<Rightarrow> py_error + json" where
  "dict_item (JObj items) key = (case map_of items key of Some v \<Rightarrow> Inr v | None \<Rightarrow> Inl KeyError)"
| "dict_item _ key = Inl TypeError"

text \<open>
  \<open>source_type_mapping.get(category, "miscellaneous")\<close>: a list or a dict is not
  hashable, any other value that is not a key gives the default.
\<close>

fun source_type_of :: "json \<Rightarrow> py_error + string" where
  "source_type_of (JStr category) =
     Inr (case map_of source_type_mapping category of Some t \<Rightarrow> t | None \<Rightarrow> ''miscellaneous'')"
| "source_type_of (JArr _) = Inl TypeError"
| "source_type_of (JObj _) = Inl TypeError"
| "source_type_of _ = Inr ''miscellaneous''"

text \<open>The body of the loop over the parsed questions, after \<open>id_counter += 1\<close>.\<close>

definition format_question :: "source_info \<Rightarrow> string \<Rightarrow> int \<Rightarrow> json \<Rightarrow> py_error + question" where
  "format_question src company_code id_counter question =
     bind_err (dict_get question ''category'' (JStr ''Miscellaneous'')) (\<lambda>category.
     bind_err (source_type_of category) (\<lambda>source_type.
     let forced = (\<not> si_is_chunk src \<and> category \<noteq> JStr ''Key Personnel'');
         category = (if forced then JStr ''Key Personnel'' else category);
         source_type = (if forced then ''personnel_data'' else source_type)
     in
     bind_err (dict_item question ''question'') (\<lambda>question_text.
     bind_err (dict_item question ''options'') (\<lambda>options.
     bind_err (dict_item question ''answer'') (\<lambda>answer.
     bind_err (dict_get question ''difficulty'' (JStr ''medium'')) (\<lambda>difficulty.
     Inr \<lparr>q_id = company_code @ str_int id_counter,
          q_question = question_text,
          q_options = options,
          q_answer = answer,
          q_metadata =
            \<lparr>md_difficulty = difficulty,
             md_company = si_company_name src,
             md_report_year = si_report_year src,
             md_source_file = si_source_file src,
             md_source_chunk_id = si_chunk_id src,
             md_source_type = source_type,
             md_category = category\<rparr>\<rparr>))))))"

text \<open>
  \<open>for question in questions\<close>: a list gives its elements, a dict its keys, a string its
  characters; anything else is not iterable.
\<close>

fun py_iter :: "json \<Rightarrow> py_error + json list" where
  "py_iter (JArr xs) = Inr xs"
| "py_iter (JObj items) = Inr (map (\<lambda>kv. JStr (fst kv)) items)"
| "py_iter (JStr s) = Inr (map (\<lambda>c. JStr [c]) s)"
| "py_iter _ = Inl TypeError"

text \<open>
  The loop over the parsed questions.  It returns the list built, or the exception that
  ended it, and in both cases the value \<open>id_counter\<close> has at that moment.
\<close>

fun format_loop ::
  "source_info \<Rightarrow> string \<Rightarrow> json list \<Rightarrow> int \<Rightarrow> question list \<Rightarrow> (py_error + question list) \<times> int" where
  "format_loop src company_code [] id_counter formatted_questions =
     (Inr formatted_questions, id_counter)"
| "format_loop src company_code (question # rest) id_counter formatted_questions =
     (let id_counter = id_counter + 1 in
      case format_question src company_code id_counter question of
        Inl e \<Rightarrow> (Inl e, id_counter)
      | Inr formatted_question \<Rightarrow>
          format_loop src company_code rest id_counter (formatted_questions @ [formatted_question]))"

text \<open>
  \<open>generate_questions\<close>.  Both handlers return \<open>[], id_counter\<close>, with the value the
  local variable has when the exception arrives.
\<close>

definition generate_questions ::
  "synth_input \<Rightarrow> openai_client \<Rightarrow> string \<Rightarrow> int \<Rightarrow> int \<Rightarrow> world \<Rightarrow> (question list \<times> int) \<times> world" where
  "generate_questions data openai_client company_code id_counter num_questions w =
     (let src = source_of data;
          request = \<lparr>pr_num_questions = num_questions,
                     pr_context = si_prompt_context src,
                     pr_text = si_text src\<rparr>;
          response = openai_client (length (w_calls w)) request;
          w' = w\<lparr>w_calls := w_calls w @ [\<lparr>gc_data = data, gc_num_questions = num_questions\<rparr>]\<rparr>
      in case response of
           Raised \<Rightarrow> (([], id_counter), w')
         | NotJson \<Rightarrow> (([], id_counter), w')
         | Parsed questions \<Rightarrow>
             (case py_iter questions of
                Inl e \<Rightarrow> (([], id_counter), w')
              | Inr items \<Rightarrow>
                  (case format_loop src company_code items id_counter [] of
                     (Inl e, id_counter') \<Rightarrow> (([], id_counter'), w')
                   | (Inr formatted_questions, id_counter') \<Rightarrow>
                       ((formatted_questions, id_counter'), w'))))"

section \<open>Company codes\<close>

definition company_abbrev :: "(string \<times> string) list" where
  "company_abbrev =
     [(''First Abu Dhabi Bank'', ''FAB''),
      (''Emirates NBD'', ''ENBD''),
      (''Abu Dhabi Commercial Bank'', ''ADCB''),
      (''Dubai Islamic Bank'', ''DIB''),
      (''Emirates Islamic Bank'', ''EIB''),
      (''Commercial Bank of Dubai'', ''CBD''),
      (''Abu Dhabi Islamic Bank'', ''ADIB''),
      (''Tabreed'', ''TAB''),
      (''Sohar International Bank'', ''SIB''),
      (''EDO'', ''EDO''),
      (''Commercial Bank'', ''CBQ''),
      (''Bank of Bahrain and Kuwait'', ''BBK''),
      (''National Bank of Bahrain'', ''NBB''),
      (''Al Ahli Bank of Kuwait'', ''ABK''),
      (''National Bank of Kuwait'', ''NBK''),
      (''Bank Muscat'', ''BM'')]"

text \<open>The ASCII characters \<open>str.split()\<close> takes for white space.\<close>

definition is_space :: "char \<Rightarrow> bool" where
  "is_space c = (let n = (of_char c :: nat) in (9 \<le> n \<and> n \<le> 13) \<or> (28 \<le> n \<and> n \<le> 32))"

text \<open>\<open>s.split()\<close>: the maximal runs of characters that are not white space.\<close>

fun split_from :: "string \<Rightarrow> string \<Rightarrow> string list" where
  "split_from word [] = (if word = [] then [] else [word])"
| "split_from word (c # cs) =
     (if is_space c then (if word = [] then split_from [] cs else word # split_from [] cs)
      else split_from (word @ [c]) cs)"

definition split_ws :: "string \<Rightarrow> string list" where
  "split_ws s = split_from [] s"

definition generate_company_code :: "string \<Rightarrow> string" where
  "generate_company_code company_name =
     (if company_name = [] then ''UNK''
      else case map_of company_abbrev company_name of
        Some code \<Rightarrow> code
      | None \<Rightarrow>
          (let words = split_ws company_name;
               code = (if 3 \<le> length words then concat (map (take 1) (take 3 words))
                       else take 4 (concat (map (take 2) words)))
           in upper code))"

section \<open>The per-company driver\<close>

text \<open>
  The files and directories the run meets.  \<open>fs_pages\<close> is what PyPDF2 reads from a
  path: the texts of the pages, or nothing when opening or reading the file raises.
  \<open>fs_makedirs_ok\<close> tells whether \<open>os.makedirs(path, exist_ok=True)\<close> succeeds, and
  \<open>fs_write_ok\<close> whether the file at a path can be opened and written; where they do
  not, the call raises an \<open>OSError\<close> (for the empty path, \<open>FileNotFoundError\<close>).
\<close>

record file_system =
  fs_pages :: "string \<Rightarrow> string list option"
  fs_makedirs_ok :: "string \<Rightarrow> bool"
  fs_write_ok :: "string \<Rightarrow> bool"

definition extract_text_from_pdf :: "file_system \<Rightarrow> string \<Rightarrow> string option" where
  "extract_text_from_pdf fs path =
     (case fs_pages fs path of
        None \<Rightarrow> None
      | Some pages \<Rightarrow> Some (concat (map (\<lambda>page. page @ [CHR 0x0A, CHR 0x0A]) pages)))"

text \<open>\<open>os.path.join(a, b)\<close> on POSIX.\<close>

definition os_path_join :: "string \<Rightarrow> string \<Rightarrow> string" where
  "os_path_join a b =
     (if b \<noteq> [] \<and> hd b = CHR ''/'' then b
      else if a = [] \<or> last a = CHR ''/'' then a @ b
      else a @ ''/'' @ b)"

text \<open>\<open>os.path.basename(p)\<close> on POSIX: what follows the last slash.\<close>

definition basename :: "string \<Rightarrow> string" where
  "basename p = rev (takeWhile (\<lambda>c. c \<noteq> CHR ''/'') (rev p))"

text \<open>\<open>pdf_info['company'] = company_name\<close>.\<close>

definition with_company :: "pdf_ref \<Rightarrow> string \<Rightarrow> pdf_info" where
  "with_company pdf company_name =
     \<lparr>pdf_path = pdf_path pdf, pdf_country = pdf_country pdf,
      pdf_filename = pdf_filename pdf, pdf_company = company_name\<rparr>"

text \<open>
  The loop over \<open>chunks_to_use\<close>; its state is \<open>all_questions\<close>, \<open>id_counter\<close>,
  \<open>questions_needed\<close> and the effects so far.
\<close>

fun chunk_questions_loop ::
  "openai_client \<Rightarrow> string \<Rightarrow> chunk list \<Rightarrow> question list \<times> int \<times> int \<times> world
     \<Rightarrow> question list \<times> int \<times> int \<times> world" where
  "chunk_questions_loop openai_client company_code [] st = st"
| "chunk_questions_loop openai_client company_code (chunk # rest)
       (all_questions, id_counter, questions_needed, w) =
     (let questions_to_generate = min 5 questions_needed in
      if questions_to_generate \<le> 0 then (all_questions, id_counter, questions_needed, w)
      else
        case generate_questions (ChunkData chunk) openai_client company_code id_counter
               questions_to_generate w of
          ((questions, id_counter'), w') \<Rightarrow>
            chunk_questions_loop openai_client company_code rest
              (all_questions @ questions, id_counter',
               questions_needed - int (length questions), w'))"

text \<open>The loop over \<open>pdf_infos\<close>; returning the state unchanged is its \<open>break\<close>.\<close>

fun pdf_loop ::
  "file_system \<Rightarrow> openai_client \<Rightarrow> string \<Rightarrow> string \<Rightarrow> int \<Rightarrow> pdf_ref list
     \<Rightarrow> question list \<times> int \<times> world \<Rightarrow> question list \<times> int \<times> world" where
  "pdf_loop fs openai_client company_name company_code questions_per_company [] st = st"
| "pdf_loop fs openai_client company_name company_code questions_per_company (pdf # rest)
       (all_questions, id_counter, w) =
     (case extract_text_from_pdf fs (pdf_path pdf) of
        None \<Rightarrow>
          pdf_loop fs openai_client company_name company_code questions_per_company rest
            (all_questions, id_counter, w)
      | Some document_text \<Rightarrow>
          if document_text = [] then
            pdf_loop fs openai_client company_name company_code questions_per_company rest
              (all_questions, id_counter, w)
          else
            (let chunks = create_chunks_from_text document_text (with_company pdf company_name);
                 questions_needed = questions_per_company - int (length all_questions)
             in if questions_needed \<le> 0 then (all_questions, id_counter, w)
                else
                  (let chunks_to_use = take (min 5 (length chunks)) chunks in
                   case chunk_questions_loop openai_client company_code chunks_to_use
                          (all_questions, id_counter, questions_needed, w) of
                     (all_questions', id_counter', questions_needed', w') \<Rightarrow>
                       pdf_loop fs openai_client company_name company_code
                         questions_per_company rest (all_questions', id_counter', w'))))"

text \<open>The personnel questions asked for when the quota is not met.\<close>

definition personnel_step ::
  "openai_client \<Rightarrow> string \<Rightarrow> string \<Rightarrow> int \<Rightarrow> question list \<times> int \<times> world
     \<Rightarrow> question list \<times> int \<times> world" where
  "personnel_step openai_client company_name company_code questions_per_company st =
     (case st of (all_questions, id_counter, w) \<Rightarrow>
        if int (length all_questions) < questions_per_company then
          (let questions_needed = questions_per_company - int (length all_questions) in
           case generate_questions (CompanyName company_name) openai_client company_code
                  id_counter questions_needed w of
             ((personnel_questions, id_counter'), w') \<Rightarrow>
               (all_questions @ personnel_questions, id_counter', w'))
        else (all_questions, id_counter, w))"

text \<open>
  \<open>process_company_documents\<close>.  It gives the questions it returns, or the exception
  that ended it, and the effects up to that moment.  \<open>pdf_infos[0]\<close> raises on an empty
  list; the two \<open>os.makedirs\<close> come before the loop, so when one of them raises no call
  of the synthesizer is issued; the file is opened after the last call.
\<close>

definition process_company_documents ::
  "file_system \<Rightarrow> string \<Rightarrow> pdf_ref list \<Rightarrow> string \<Rightarrow> openai_client \<Rightarrow> int \<Rightarrow> world
     \<Rightarrow> (py_error + question list) \<times> world" where
  "process_company_documents fs company_name pdf_infos output_dir openai_client
       questions_per_company w =
     (case pdf_infos of
        [] \<Rightarrow> (Inl IndexError, w)
      | first_pdf # _ \<Rightarrow>
          (let company_code = generate_company_code company_name;
               country = pdf_country first_pdf
           in if \<not> fs_makedirs_ok fs output_dir then (Inl OSError, w)
              else
                (let country_dir = os_path_join output_dir country
                 in if \<not> fs_makedirs_ok fs country_dir then (Inl OSError, w)
                    else
                      case personnel_step openai_client company_name company_code
                             questions_per_company
                             (pdf_loop fs openai_client company_name company_code
                                questions_per_company pdf_infos ([], 1000, w)) of
                        (all_questions, id_counter, w') \<Rightarrow>
                          (let output_file =
                                 os_path_join country_dir
                                   (replace_char CHR '' '' CHR ''_'' company_name
                                    @ ''_questions.jsonl'')
                           in if \<not> fs_write_ok fs output_file then (Inl OSError, w')
                              else (Inr all_questions,
                                    w'\<lparr>w_files := w_files w' @
                                         [(output_file, QuestionLines all_questions)]\<rparr>)))))"

section \<open>The corpus collector\<close>

text \<open>
  One name that \<open>os.listdir(directory_path)\<close> returns: whether it is a directory, and the
  paths \<open>glob.glob(os.path.join(country_path, "*.pdf"))\<close> returns for it, in that order.
\<close>

record dir_entry =
  de_name :: string
  de_is_dir :: bool
  de_pdfs :: "string list"

definition company_name_map :: "(string \<times> string) list" where
  "company_name_map =
     [(''BBK'', ''Bank of Bahrain and Kuwait''),
      (''NBB'', ''National Bank of Bahrain''),
      (''SIB'', ''Sohar International Bank''),
      (''ABK'', ''Al Ahli Bank of Kuwait''),
      (''NBK'', ''National Bank of Kuwait''),
      (''BM'', ''Bank Muscat''),
      (''EDO'', ''Energy Development Oman''),
      (''ADIB'', ''Abu Dhabi Islamic Bank''),
      (''FAB'', ''First Abu Dhabi Bank''),
      (''ENBD'', ''Emirates NBD''),
      (''DIB'', ''Dubai Islamic Bank''),
      (''CBD'', ''Commercial Bank of Dubai''),
      (''TAB'', ''Tabreed'')]"

text \<open>
  One way for \<open>^([A-Za-z]{2,4})[-_]\<close> to match: \<open>k\<close> letters, then a dash or an
  underscore.
\<close>

definition code_match_at :: "nat \<Rightarrow> string \<Rightarrow> bool" where
  "code_match_at k filename =
     (k < length filename \<and> list_all is_alpha (take k filename)
      \<and> (filename ! k = CHR ''-'' \<or> filename ! k = CHR ''_''))"

text \<open>
  \<open>re.match(r'^([A-Za-z]{2,4})[-_]', filename)\<close>, giving \<open>group(1)\<close>: the repetition is
  greedy, so four letters are tried first, then three, then two.
\<close>

definition company_code_match :: "string \<Rightarrow> string option" where
  "company_code_match filename =
     (if code_match_at 4 filename then Some (take 4 filename)
      else if code_match_at 3 filename then Some (take 3 filename)
      else if code_match_at 2 filename then Some (take 2 filename)
      else None)"

text \<open>The company name the collector's loop body derives from a file name.\<close>

definition company_name_of :: "string \<Rightarrow> string \<Rightarrow> string" where
  "company_name_of filename country =
     (case company_code_match filename of
        Some group1 \<Rightarrow>
          (let company_code = upper group1 in
           case map_of company_name_map company_code of
             Some name \<Rightarrow> name
           | None \<Rightarrow> company_code @ '' '' @ country)
      | None \<Rightarrow>
          title (replace_char CHR ''-'' CHR '' '' (takeWhile (\<lambda>c. c \<noteq> CHR ''_'') filename)))"

text \<open>
  \<open>company_pdfs\<close> is a dict from company names to lists, kept here with its keys in
  insertion order: a new key goes last, a known key gets the reference appended.
\<close>

fun dict_append :: "string \<Rightarrow> pdf_ref \<Rightarrow> (string \<times> pdf_ref list) list \<Rightarrow> (string \<times> pdf_ref list) list" where
  "dict_append key v [] = [(key, [v])]"
| "dict_append key v ((k, vs) # rest) =
     (if k = key then (k, vs @ [v]) # rest else (k, vs) # dict_append key v rest)"

definition add_pdf :: "string \<Rightarrow> (string \<times> pdf_ref list) list \<Rightarrow> string \<Rightarrow> (string \<times> pdf_ref list) list" where
  "add_pdf country company_pdfs path =
     (let filename = basename path in
      dict_append (company_name_of filename country)
        \<lparr>pdf_path = path, pdf_country = country, pdf_filename = filename\<rparr> company_pdfs)"

definition add_country :: "(string \<times> pdf_ref list) list \<Rightarrow> dir_entry \<Rightarrow> (string \<times> pdf_ref list) list" where
  "add_country company_pdfs d = foldl (add_pdf (de_name d)) company_pdfs (de_pdfs d)"

definition is_hidden :: "string \<Rightarrow> bool" where
  "is_hidden name = (case name of [] \<Rightarrow> False | c # _ \<Rightarrow> c = CHR ''.'')"

text \<open>
  \<open>collect_gcc_company_pdfs\<close>, given what \<open>os.listdir\<close> finds under the input directory
  (\<open>None\<close> when the directory does not exist).
\<close>

definition collect_gcc_company_pdfs :: "dir_entry list option \<Rightarrow> (string \<times> pdf_ref list) list" where
  "collect_gcc_company_pdfs listing =
     (case listing of
        None \<Rightarrow> []
      | Some entries \<Rightarrow>
          (let country_dirs = filter (\<lambda>d. de_is_dir d \<and> \<not> is_hidden (de_name d)) entries
           in foldl add_country [] country_dirs))"

section \<open>The whole run\<close>

record args =
  ar_input_dir :: string
  ar_output_dir :: string
  ar_openai_api_key :: "string option"
  ar_questions_per_company :: int

text \<open>The loop of \<open>main\<close> over \<open>company_pdfs.items()\<close>; an exception ends the run.\<close>

fun company_loop ::
  "file_system \<Rightarrow> string \<Rightarrow> openai_client \<Rightarrow> int \<Rightarrow> (string \<times> pdf_ref list) list
     \<Rightarrow> question list \<times> world \<Rightarrow> (question list \<times> world) \<times> py_error option" where
  "company_loop fs output_dir openai_client quota [] st = (st, None)"
| "company_loop fs output_dir openai_client quota ((company_name, pdf_infos) # rest)
       (all_questions, w) =
     (case process_company_documents fs company_name pdf_infos output_dir openai_client quota w of
        (Inl e, w') \<Rightarrow> ((all_questions, w'), Some e)
      | (Inr company_questions, w') \<Rightarrow>
          company_loop fs output_dir openai_client quota rest
            (all_questions @ company_questions, w'))"

text \<open>\<open>sep.join(xs)\<close>.\<close>

fun join_strs :: "string \<Rightarrow> string list \<Rightarrow> string" where
  "join_strs sep [] = []"
| "join_strs sep [x] = x"
| "join_strs sep (x # y # ys) = x @ sep @ join_strs sep (y # ys)"

fun json_str :: "json \<Rightarrow> string option" where
  "json_str (JStr s) = Some s"
| "json_str _ = None"

text \<open>
  \<open>', '.join(sorted(set(...)))\<close> over the categories: \<open>join\<close> accepts strings only (and
  \<open>sorted\<close> may refuse a mixed set before it).
\<close>

definition categories_field :: "json list \<Rightarrow> py_error + string" where
  "categories_field cats =
     (if list_all (\<lambda>c. json_str c \<noteq> None) cats
      then Inr (join_strs '', '' (sort (remdups (map (\<lambda>c. the (json_str c)) cats))))
      else Inl TypeError)"

definition summary_row_of :: "question list \<Rightarrow> string \<times> pdf_ref list \<Rightarrow> py_error + summary_row" where
  "summary_row_of all_questions item =
     (case item of (company_name, pdf_infos) \<Rightarrow>
        (case pdf_infos of
           [] \<Rightarrow> Inl IndexError
         | first_pdf # _ \<Rightarrow>
             (let company_questions =
                    filter (\<lambda>q. md_company (q_metadata q) = company_name) all_questions
              in bind_err (categories_field (map (\<lambda>q. md_category (q_metadata q)) company_questions))
                   (\<lambda>categories.
                      Inr \<lparr>sr_company = company_name,
                           sr_code = generate_company_code company_name,
                           sr_country = pdf_country first_pdf,
                           sr_pdfs_processed = length pdf_infos,
                           sr_questions_generated = length company_questions,
                           sr_categories = categories\<rparr>))))"

fun summary_rows :: "question list \<Rightarrow> (string \<times> pdf_ref list) list \<Rightarrow> py_error + summary_row list" where
  "summary_rows all_questions [] = Inr []"
| "summary_rows all_questions (item # rest) =
     bind_err (summary_row_of all_questions item) (\<lambda>row.
     bind_err (summary_rows all_questions rest) (\<lambda>rows. Inr (row # rows)))"

text \<open>\<open>args.openai_api_key or os.environ.get("OPENAI_API_KEY")\<close>.\<close>

definition api_key_of :: "args \<Rightarrow> string option \<Rightarrow> string option" where
  "api_key_of a env_api_key =
     (case ar_openai_api_key a of
        None \<Rightarrow> env_api_key
      | Some k \<Rightarrow> if k = [] then env_api_key else Some k)"

text \<open>
  \<open>main\<close>, from the parsed arguments, the value of \<open>OPENAI_API_KEY\<close> in the environment,
  the input directory, the files and the generation service.  It gives the effects of
  the run and the exception that ended it, if one did.
\<close>

definition main ::
  "args \<Rightarrow> string option \<Rightarrow> dir_entry list option \<Rightarrow> file_system \<Rightarrow> openai_client
     \<Rightarrow> world \<times> py_error option" where
  "main a env_api_key listing fs openai_client =
     (let w0 = \<lparr>w_calls = [], w_files = []\<rparr>;
          api_key = api_key_of a env_api_key
      in if api_key = None \<or> api_key = Some [] then (w0, None)
         else
           (let company_pdfs = collect_gcc_company_pdfs listing in
            if company_pdfs = [] then (w0, None)
            else
              case company_loop fs (ar_output_dir a) openai_client (ar_questions_per_company a)
                     company_pdfs ([], w0) of
                ((all_questions, w), Some e) \<Rightarrow> (w, Some e)
              | ((all_questions, w), None) \<Rightarrow>
                  (let combined_file = os_path_join (ar_output_dir a) ''GCC_market_dataset.jsonl''
                   in if \<not> fs_write_ok fs combined_file then (w, Some OSError)
                      else
                        (let w1 = w\<lparr>w_files := w_files w @
                                       [(combined_file, QuestionLines all_questions)]\<rparr>
                         in case summary_rows all_questions company_pdfs of
                              Inl e \<Rightarrow> (w1, Some e)
                            | Inr summary_data \<Rightarrow>
                                (let summary_file =
                                       os_path_join (ar_output_dir a) ''processing_summary.csv''
                                 in if \<not> fs_write_ok fs summary_file then (w1, Some OSError)
                                    else (w1\<lparr>w_files := w_files w1 @
                                               [(summary_file, SummaryTable summary_data)]\<rparr>,
                                          None))))))"

section \<open>Vocabulary of the proofs and inputs of the examples\<close>

text \<open>
  The number of chunks the loop still adds when it stands at index \<open>i\<close> of a text of
  length \<open>L\<close>, and the chunk it builds from the window at \<open>i\<close> as the \<open>n\<close>-th one.
\<close>

definition chunk_count :: "nat \<Rightarrow> nat \<Rightarrow> nat" where
  "chunk_count L i = (if i + 100 \<le> L then (L - 100 - i) div 1300 + 1 else 0)"

definition make_chunk :: "string \<Rightarrow> pdf_info \<Rightarrow> string \<Rightarrow> nat \<Rightarrow> nat \<Rightarrow> chunk" where
  "make_chunk doc_text info report_year i n =
     \<lparr>ch_text = take 1500 (drop i doc_text), ch_chunk_id = str_nat n,
      ch_source_file = pdf_filename info, ch_company = pdf_company info,
      ch_country = pdf_country info, ch_report_year = report_year\<rparr>"

text \<open>
  The requests the chunk loops send when every call returns as many questions as it was
  asked for: up to five per chunk while questions are still needed.
\<close>

fun requests :: "int \<Rightarrow> chunk list \<Rightarrow> (chunk \<times> int) list" where
  "requests needed [] = []"
| "requests needed (c # cs) =
     (if needed \<le> 0 then [] else (c, min 5 needed) # requests (needed - min 5 needed) cs)"

definition requested_total :: "(chunk \<times> int) list \<Rightarrow> int" where
  "requested_total rs = sum_list (map snd rs)"

definition call_of :: "chunk \<times> int \<Rightarrow> gen_call" where
  "call_of r = \<lparr>gc_data = ChunkData (fst r), gc_num_questions = snd r\<rparr>"

text \<open>
  The chunks the driver may use: of each document with text, the first five chunks, in
  the order of the documents.
\<close>

definition usable_chunks :: "file_system \<Rightarrow> string \<Rightarrow> pdf_ref list \<Rightarrow> chunk list" where
  "usable_chunks fs company_name pdf_infos =
     concat (map (\<lambda>pdf. case extract_text_from_pdf fs (pdf_path pdf) of
                           None \<Rightarrow> []
                         | Some document_text \<Rightarrow>
                             if document_text = [] then []
                             else take 5 (create_chunks_from_text document_text
                                            (with_company pdf company_name)))
                 pdf_infos)"

text \<open>The list a company name maps to in \<open>company_pdfs\<close>, empty when the name is not a key.\<close>

definition group_of :: "(string \<times> pdf_ref list) list \<Rightarrow> string \<Rightarrow> pdf_ref list" where
  "group_of company_pdfs name = (case map_of company_pdfs name of None \<Rightarrow> [] | Some refs \<Rightarrow> refs)"

text \<open>The path \<open>process_company_documents\<close> writes a company's questions to.\<close>

definition company_file :: "string \<Rightarrow> string \<times> pdf_ref list \<Rightarrow> string" where
  "company_file output_dir item =
     os_path_join (os_path_join output_dir (pdf_country (hd (snd item))))
       (replace_char CHR '' '' CHR ''_'' (fst item) @ ''_questions.jsonl'')"

text \<open>Inputs of the examples.\<close>

definition info0 :: pdf_info where
  "info0 = \<lparr>pdf_path = ''files/UAE/FAB_Report_2023.pdf'', pdf_country = ''UAE'',
            pdf_filename = ''FAB_Report_2023.pdf'', pdf_company = ''First Abu Dhabi Bank''\<rparr>"

definition pdf0 :: pdf_ref where
  "pdf0 = \<lparr>pdf_path = ''files/UAE/FAB_Report_2023.pdf'', pdf_country = ''UAE'',
           pdf_filename = ''FAB_Report_2023.pdf''\<rparr>"

definition w0 :: world where
  "w0 = \<lparr>w_calls = [], w_files = []\<rparr>"

definition sample_question :: "string \<Rightarrow> json" where
  "sample_question category =
     JObj [(''question'', JStr ''Who chairs the board?''),
           (''options'', JArr [JStr ''A. One'', JStr ''B. Two'', JStr ''C. Three'', JStr ''D. Four'']),
           (''answer'', JStr ''B''),
           (''difficulty'', JStr ''easy''),
           (''category'', JStr category)]"

definition client_financial :: openai_client where
  "client_financial k request = Parsed (JArr [sample_question ''Financial Performance''])"

definition client_missing_options :: openai_client where
  "client_missing_options k request = Parsed (JArr [JObj [(''question'', JStr ''Who chairs the board?'')]])"

definition client_exact :: openai_client where
  "client_exact k request =
     Parsed (JArr (replicate (nat (pr_num_questions request)) (sample_question ''Market Position'')))"

definition client_first_malformed :: openai_client where
  "client_first_malformed k request =
     (if k = 0 then Parsed (JArr [JObj [(''question'', JStr ''Who chairs the board?'')]])
      else Parsed (JArr [sample_question ''Key Personnel'']))"

definition fs_long :: file_system where
  "fs_long =
     \<lparr>fs_pages = (\<lambda>path. if path = ''files/UAE/FAB_Report_2023.pdf''
                          then Some [replicate 2698 CHR ''a''] else None),
      fs_makedirs_ok = (\<lambda>path. path \<noteq> []),
      fs_write_ok = (\<lambda>path. True)\<rparr>"

definition fs_short :: file_system where
  "fs_short =
     \<lparr>fs_pages = (\<lambda>path. if path = ''files/UAE/FAB_Report_2023.pdf''
                          then Some [replicate 100 CHR ''a''] else None),
      fs_makedirs_ok = (\<lambda>path. path \<noteq> []),
      fs_write_ok = (\<lambda>path. True)\<rparr>"

definition fs_unreadable :: file_system where
  "fs_unreadable =
     \<lparr>fs_pages = (\<lambda>path. None),
      fs_makedirs_ok = (\<lambda>path. path \<noteq> []),
      fs_write_ok = (\<lambda>path. True)\<rparr>"

definition listing0 :: "dir_entry list" where
  "listing0 = [\<lparr>de_name = ''UAE'', de_is_dir = True,
                de_pdfs = [''files/UAE/FAB_Report_2023.pdf'', ''files/UAE/randomfile.pdf'']\<rparr>]"

definition listing1 :: "dir_entry list" where
  "listing1 = [\<lparr>de_name = ''UAE'', de_is_dir = True,
                de_pdfs = [''files/UAE/FAB_Report_2023.pdf'']\<rparr>]"

definition args0 :: args where
  "args0 = \<lparr>ar_input_dir = ''files'', ar_output_dir = ''output'',
            ar_openai_api_key = Some ''sk-test'', ar_questions_per_company = 2\<rparr>"

section \<open>The chunker: windows, ids and lengths\<close>

lemma chunk_count_step:
  "i + 100 \<le> L \<Longrightarrow> chunk_count L i = Suc (chunk_count L (i + 1300))"
  unfolding chunk_count_def
  by (auto simp: not_le) 

lemma chunk_loop_eq:
  "chunk_loop doc_text info yr i chunks =
     chunks @ map (\<lambda>t. make_chunk doc_text info yr (i + 1300 * t) (length chunks + 1 + t))
                  [0..<chunk_count (length doc_text) i]"
proof (induction doc_text info yr i chunks rule: chunk_loop.induct)
  case (1 doc_text info yr i chunks)
  show ?case
  proof (cases "i < length doc_text")
    case False
    then show ?thesis
      by (subst chunk_loop.simps) (simp add: chunk_count_def)
  next
    case True
    show ?thesis
    proof (cases "length doc_text - i < 100")
      case short: True
      have c0: "chunk_count (length doc_text) i = 0" "chunk_count (length doc_text) (i + 1300) = 0"
        using short True by (auto simp: chunk_count_def)
      have len: "length (take chunk_size (drop i doc_text)) < 100"
        using short by (simp add: chunk_size_def)
      have ih: "chunk_loop doc_text info yr (i + (chunk_size - chunk_overlap)) chunks = chunks"
        using "1.IH"(1)[OF True refl len] c0 by (simp add: chunk_size_def chunk_overlap_def)
      show ?thesis
        apply (subst chunk_loop.simps)
        apply (simp only: True len if_True Let_def ih c0)
        apply simp
        done
    next
      case long: False
      have len: "\<not> length (take chunk_size (drop i doc_text)) < 100"
        using long by (simp add: chunk_size_def)
      have cnt: "chunk_count (length doc_text) i = Suc (chunk_count (length doc_text) (i + 1300))"
        using long True by (intro chunk_count_step) simp
      note ih = "1.IH"(2)[OF True refl len]
      have first: "take chunk_size (drop i doc_text) = take 1500 (drop (i + 1300 * 0) doc_text)"
        by (simp add: chunk_size_def)
      show ?thesis
        apply (subst chunk_loop.simps)
        apply (simp only: True len if_True if_False Let_def ih cnt)
        apply (simp add: chunk_size_def chunk_overlap_def upt_conv_Cons map_Suc_upt[symmetric] make_chunk_def add.assoc del: upt_Suc)
        done
    qed
  qed
qed

lemma create_chunks_from_text_eq:
  "create_chunks_from_text doc_text info =
     map (\<lambda>t. make_chunk doc_text info
                   (case year_search (pdf_filename info) of Some y \<Rightarrow> y | None \<Rightarrow> ''2024'')
                   (1300 * t) (t + 1))
         [0..<chunk_count (length doc_text) 0]"
  by (simp add: create_chunks_from_text_def chunk_loop_eq chunk_count_def)

lemma length_create_chunks:
  "length (create_chunks_from_text doc_text info) = chunk_count (length doc_text) 0"
  by (simp add: create_chunks_from_text_eq)

lemma nth_create_chunks:
  "k < length (create_chunks_from_text doc_text info) \<Longrightarrow>
   create_chunks_from_text doc_text info ! k =
     make_chunk doc_text info
       (case year_search (pdf_filename info) of Some y \<Rightarrow> y | None \<Rightarrow> ''2024'')
       (1300 * k) (k + 1)"
  by (simp add: create_chunks_from_text_eq)

lemma chunk_text_length:
  "k < length (create_chunks_from_text doc_text info) \<Longrightarrow>
   length (ch_text (create_chunks_from_text doc_text info ! k)) = min 1500 (length doc_text - 1300 * k)"
  by (simp add: create_chunks_from_text_eq make_chunk_def min.commute)

lemma filter_map_upt_prefix:
  assumes "K \<le> n" "\<And>j. j < K \<Longrightarrow> P (f j)" "\<And>j. K \<le> j \<Longrightarrow> j < n \<Longrightarrow> \<not> P (f j)"
  shows "filter P (map f [0..<n]) = map f [0..<K]"
proof -
  have "[0..<n] = [0..<K] @ [K..<n]"
    using assms(1) by (metis le_add_diff_inverse upt_add_eq_append zero_le)
  then show ?thesis
    using assms(2,3) by (simp add: filter_map o_def)
qed

subsection \<open>Claim C2: the lengths of the chunks\<close>

text \<open>
  Claim C2, as amended.  For every input text, every chunk the chunker returns except
  possibly the last two has a text of exactly 1500 characters, and every chunk except
  possibly the last has a text of at least 1400 characters.  (The windows start 1300
  characters apart, so the window before the last kept one may already reach the end of
  the text.)
\<close>

theorem chunks_full_except_last_two:
  "(\<forall>k. k + 2 < length (create_chunks_from_text doc_text info) \<longrightarrow>
        length (ch_text (create_chunks_from_text doc_text info ! k)) = 1500) \<and>
   (\<forall>k. k + 1 < length (create_chunks_from_text doc_text info) \<longrightarrow>
        1400 \<le> length (ch_text (create_chunks_from_text doc_text info ! k)))"
proof (intro conjI allI impI)
  fix k
  assume k: "k + 2 < length (create_chunks_from_text doc_text info)"
  then have "1300 * (k + 2) + 100 \<le> length doc_text"
    by (simp add: length_create_chunks chunk_count_def split: if_splits)
  then show "length (ch_text (create_chunks_from_text doc_text info ! k)) = 1500"
    using k by (simp add: chunk_text_length)
next
  fix k
  assume k: "k + 1 < length (create_chunks_from_text doc_text info)"
  then have "1300 * (k + 1) + 100 \<le> length doc_text"
    by (simp add: length_create_chunks chunk_count_def split: if_splits)
  then show "1400 \<le> length (ch_text (create_chunks_from_text doc_text info ! k))"
    using k by (simp add: chunk_text_length)
qed

text \<open>
  A text of 2700 characters gives three chunks, of 1500, 1400 and 100 characters: the
  first is full and the second has its 1400.
\<close>

theorem chunks_full_except_last_two_witness:
  "(0::nat) + 2 < length (create_chunks_from_text (replicate 2700 CHR ''a'') info0) \<and>
   length (ch_text (create_chunks_from_text (replicate 2700 CHR ''a'') info0 ! 0)) = 1500 \<and>
   (1::nat) + 1 < length (create_chunks_from_text (replicate 2700 CHR ''a'') info0) \<and>
   1400 \<le> length (ch_text (create_chunks_from_text (replicate 2700 CHR ''a'') info0 ! 1))"
proof -
  have len: "length (create_chunks_from_text (replicate 2700 CHR ''a'') info0) = 3"
    by (simp add: length_create_chunks chunk_count_def)
  show ?thesis
    using chunks_full_except_last_two [of "replicate 2700 CHR ''a''" info0]
    by (simp add: len)
qed

text \<open>
  Claim C2 as stated fails: a text of 1400 characters gives two chunks, the windows at 0
  and at 1300, and the first of them, which is not the last, has 1400 characters and not
  1500.
\<close>

theorem chunk_before_last_short_counterexample:
  "map (\<lambda>c. length (ch_text c)) (create_chunks_from_text (replicate 1400 CHR ''a'') info0)
     = [1400, 100]"
  by (simp add: create_chunks_from_text_eq chunk_count_def make_chunk_def upt_conv_Cons)

subsection \<open>Claim C3: the chunks are the windows of at least 100 characters\<close>

text \<open>
  Claim C3.  For every non-empty input text, the \<open>k\<close>-th chunk returned (counting from 1)
  has the chunk id \<open>k\<close>, written in decimal, so the ids are 1, 2, ... with no gaps, and
  its text is the slice of the input that starts at \<open>(k - 1) * 1300\<close> and has at most
  1500 characters; the texts of the chunks are exactly the windows of at least 100
  characters, in order.  The chunker reads nothing but its arguments and is a function
  of them here, so equal inputs give equal sequences of chunks.  (Indices below count
  from 0.)
\<close>

theorem chunks_are_the_long_windows:
  assumes "doc_text \<noteq> []"
  shows "(\<forall>k < length (create_chunks_from_text doc_text info).
            ch_chunk_id (create_chunks_from_text doc_text info ! k) = str_nat (k + 1) \<and>
            ch_text (create_chunks_from_text doc_text info ! k)
              = take 1500 (drop (k * 1300) doc_text)) \<and>
         map ch_chunk_id (create_chunks_from_text doc_text info)
           = map str_nat [1..<length (create_chunks_from_text doc_text info) + 1] \<and>
         map ch_text (create_chunks_from_text doc_text info)
           = filter (\<lambda>window. 100 \<le> length window)
               (map (\<lambda>j. take 1500 (drop (j * 1300) doc_text))
                    [0..<(length doc_text + 1299) div 1300])"
proof (intro conjI allI impI)
  fix k
  assume "k < length (create_chunks_from_text doc_text info)"
  then show "ch_chunk_id (create_chunks_from_text doc_text info ! k) = str_nat (k + 1)"
    by (simp add: nth_create_chunks make_chunk_def)
next
  fix k
  assume "k < length (create_chunks_from_text doc_text info)"
  then show "ch_text (create_chunks_from_text doc_text info ! k) = take 1500 (drop (k * 1300) doc_text)"
    by (simp add: nth_create_chunks make_chunk_def mult.commute)
next
  have "map ch_chunk_id (create_chunks_from_text doc_text info)
          = map (\<lambda>t. str_nat (Suc t)) [0..<chunk_count (length doc_text) 0]"
    by (simp add: create_chunks_from_text_eq make_chunk_def o_def)
  also have "\<dots> = map str_nat (map Suc [0..<chunk_count (length doc_text) 0])"
    by (simp add: o_def)
  also have "\<dots> = map str_nat [1..<length (create_chunks_from_text doc_text info) + 1]"
    by (simp only: map_Suc_upt length_create_chunks) simp
  finally show "map ch_chunk_id (create_chunks_from_text doc_text info)
           = map str_nat [1..<length (create_chunks_from_text doc_text info) + 1]" .
next
  let ?L = "length doc_text"
  let ?K = "chunk_count ?L 0"
  let ?f = "\<lambda>j. take 1500 (drop (j * 1300) doc_text)"
  have 1: "?K \<le> (?L + 1299) div 1300"
  proof (cases "100 \<le> ?L")
    case True
    have "Suc ((?L - 100) div 1300) = (?L - 100 + 1300) div 1300"
      by simp
    also have "\<dots> \<le> (?L + 1299) div 1300"
      using True by (intro div_le_mono) simp
    finally show ?thesis
      using True by (simp add: chunk_count_def)
  next
    case False
    then show ?thesis by (simp add: chunk_count_def)
  qed
  have 2: "100 \<le> length (?f j)" if "j < ?K" for j
    using that by (simp add: chunk_count_def split: if_splits)
  have 3: "\<not> 100 \<le> length (?f j)" if "?K \<le> j" for j
    using that by (simp add: chunk_count_def split: if_splits)
  have "filter (\<lambda>window. 100 \<le> length window) (map ?f [0..<(?L + 1299) div 1300]) = map ?f [0..<?K]"
    by (rule filter_map_upt_prefix) (use 1 2 3 in auto)
  moreover have "map ch_text (create_chunks_from_text doc_text info) = map ?f [0..<?K]"
    by (simp add: create_chunks_from_text_eq make_chunk_def o_def mult.commute)
  ultimately show "map ch_text (create_chunks_from_text doc_text info)
           = filter (\<lambda>window. 100 \<le> length window)
               (map ?f [0..<(length doc_text + 1299) div 1300])"
    by simp
qed

text \<open>
  On a text of 1400 characters there are two windows, both of at least 100 characters:
  the chunks have the ids 1 and 2 and are the slices at 0 and at 1300.
\<close>

theorem chunks_are_the_long_windows_witness:
  "replicate 1400 CHR ''a'' \<noteq> [] \<and>
   length (create_chunks_from_text (replicate 1400 CHR ''a'') info0) = 2 \<and>
   ch_chunk_id (create_chunks_from_text (replicate 1400 CHR ''a'') info0 ! 0) = ''1'' \<and>
   ch_chunk_id (create_chunks_from_text (replicate 1400 CHR ''a'') info0 ! 1) = ''2'' \<and>
   ch_text (create_chunks_from_text (replicate 1400 CHR ''a'') info0 ! 0) = replicate 1400 CHR ''a'' \<and>
   ch_text (create_chunks_from_text (replicate 1400 CHR ''a'') info0 ! 1) = replicate 100 CHR ''a''"
proof -
  have ne: "replicate 1400 CHR ''a'' \<noteq> []"
    by simp
  have len: "length (create_chunks_from_text (replicate 1400 CHR ''a'') info0) = 2"
    by (simp add: length_create_chunks chunk_count_def)
  have ids: "str_nat (Suc 0) = ''1''" "str_nat (Suc (Suc 0)) = ''2''"
    by code_simp+
  have "\<forall>k<2. ch_chunk_id (create_chunks_from_text (replicate 1400 CHR ''a'') info0 ! k) = str_nat (k + 1) \<and>
            ch_text (create_chunks_from_text (replicate 1400 CHR ''a'') info0 ! k)
              = take 1500 (drop (k * 1300) (replicate 1400 CHR ''a''))"
    using chunks_are_the_long_windows [OF ne, of info0] unfolding len by (rule conjunct1)
  then have "ch_chunk_id (create_chunks_from_text (replicate 1400 CHR ''a'') info0 ! 0) = str_nat (0 + 1) \<and>
            ch_text (create_chunks_from_text (replicate 1400 CHR ''a'') info0 ! 0)
              = take 1500 (drop (0 * 1300) (replicate 1400 CHR ''a''))"
    and "ch_chunk_id (create_chunks_from_text (replicate 1400 CHR ''a'') info0 ! 1) = str_nat (1 + 1) \<and>
            ch_text (create_chunks_from_text (replicate 1400 CHR ''a'') info0 ! 1)
              = take 1500 (drop (1 * 1300) (replicate 1400 CHR ''a''))"
    by simp_all
  then show ?thesis
    using ne len ids by simp
qed

section \<open>The question synthesizer: what every returned question carries\<close>

lemma source_type_of_key_personnel:
  "source_type_of (JStr ''Key Personnel'') = Inr ''personnel_data''"
  by (simp add: source_type_mapping_def)

lemma format_question_personnel:
  assumes "format_question src company_code id_counter question = Inr fq"
    and "\<not> si_is_chunk src"
  shows "md_category (q_metadata fq) = JStr ''Key Personnel'' \<and>
         md_source_type (q_metadata fq) = ''personnel_data''"
proof -
  obtain category source_type where
    c: "dict_get question ''category'' (JStr ''Miscellaneous'') = Inr category" and
    t: "source_type_of category = Inr source_type"
    using assms(1) by (auto simp: format_question_def bind_err_def split: sum.splits)
  show ?thesis
  proof (cases "category = JStr ''Key Personnel''")
    case True
    then have "source_type = ''personnel_data''"
      using t source_type_of_key_personnel by simp
    then show ?thesis
      using assms c t True
      by (auto simp: format_question_def bind_err_def Let_def split: sum.splits)
  next
    case False
    then show ?thesis
      using assms c t
      by (auto simp: format_question_def bind_err_def Let_def split: sum.splits)
  qed
qed

lemma format_question_provenance:
  assumes "format_question src company_code id_counter question = Inr fq"
  shows "q_id fq = company_code @ str_int id_counter \<and>
         md_company (q_metadata fq) = si_company_name src \<and>
         md_report_year (q_metadata fq) = si_report_year src \<and>
         md_source_file (q_metadata fq) = si_source_file src \<and>
         md_source_chunk_id (q_metadata fq) = si_chunk_id src"
  using assms
  by (auto simp: format_question_def bind_err_def Let_def split: sum.splits)

lemma format_loop_all:
  assumes "format_loop src company_code items id_counter acc = (Inr qs, id_counter')"
    and "list_all P acc"
    and "\<And>n question fq. format_question src company_code n question = Inr fq \<Longrightarrow> P fq"
  shows "list_all P qs"
  using assms(1,2)
proof (induction items arbitrary: id_counter acc)
  case Nil
  then show ?case by simp
next
  case (Cons question rest)
  from Cons.prems(1) obtain fq where
    fq: "format_question src company_code (id_counter + 1) question = Inr fq" and
    rest: "format_loop src company_code rest (id_counter + 1) (acc @ [fq]) = (Inr qs, id_counter')"
    by (auto simp: Let_def split: sum.splits)
  have "list_all P (acc @ [fq])"
    using Cons.prems(2) assms(3)[OF fq] by simp
  then show ?case
    using Cons.IH[OF rest] by simp
qed

lemma generate_questions_all:
  assumes "\<And>n question fq. format_question (source_of data) company_code n question = Inr fq \<Longrightarrow> P fq"
  shows "list_all P (fst (fst (generate_questions data openai_client company_code id_counter num_questions w)))"
proof -
  have "list_all P qs"
    if "format_loop (source_of data) company_code items id_counter [] = (Inr qs, c)" for items qs c
    using format_loop_all[OF that _ assms] by simp
  then show ?thesis
    by (auto simp: generate_questions_def Let_def split: api_outcome.splits sum.splits prod.splits)
qed

lemma generate_questions_world:
  "snd (generate_questions data openai_client company_code id_counter num_questions w)
     = w\<lparr>w_calls := w_calls w @ [\<lparr>gc_data = data, gc_num_questions = num_questions\<rparr>]\<rparr>"
  by (simp add: generate_questions_def Let_def split: api_outcome.splits sum.splits prod.splits)

lemma generate_questions_files:
  "w_files (snd (generate_questions data openai_client company_code id_counter num_questions w))
     = w_files w"
  by (simp add: generate_questions_world)

lemma format_question_sample:
  "\<exists>fq. format_question src company_code id_counter (sample_question category) = Inr fq"
  by (cases "map_of source_type_mapping category")
     (simp_all add: format_question_def sample_question_def bind_err_def Let_def)

lemma format_loop_replicate:
  "\<exists>qs c. format_loop src company_code (replicate m (sample_question category)) id_counter acc
             = (Inr qs, c) \<and> length qs = length acc + m"
proof (induction m arbitrary: id_counter acc)
  case 0
  then show ?case by simp
next
  case (Suc m)
  obtain fq where fq: "format_question src company_code (id_counter + 1) (sample_question category) = Inr fq"
    using format_question_sample by blast
  show ?case
    using Suc[of "id_counter + 1" "acc @ [fq]"] fq by (auto simp: Let_def)
qed

lemma client_exact_returns_requested:
  "0 \<le> n \<Longrightarrow>
   int (length (fst (fst (generate_questions data client_exact code ctr n w)))) = n"
proof -
  assume n: "0 \<le> n"
  obtain qs c where
    "format_loop (source_of data) code (replicate (nat n) (sample_question ''Market Position'')) ctr []
             = (Inr qs, c)" and "length qs = nat n"
    using format_loop_replicate[of "source_of data" code "nat n" "''Market Position''" ctr "[]"] by auto
  then show ?thesis
    using n by (simp add: generate_questions_def client_exact_def Let_def)
qed

subsection \<open>Claim C6: personnel questions are filed under Key Personnel\<close>

text \<open>
  Claim C6.  When the synthesizer is called with a bare company name, every question it
  returns has the category \<open>Key Personnel\<close> and the source type \<open>personnel_data\<close>,
  whatever the generation service answers, and so whatever category a parsed question
  carries or lacks.
\<close>

theorem personnel_questions_forced:
  "\<forall>q \<in> set (fst (fst (generate_questions (CompanyName company_name) openai_client
                            company_code id_counter num_questions w))).
      md_category (q_metadata q) = JStr ''Key Personnel'' \<and>
      md_source_type (q_metadata q) = ''personnel_data''"
proof -
  have "list_all (\<lambda>q. md_category (q_metadata q) = JStr ''Key Personnel'' \<and>
                      md_source_type (q_metadata q) = ''personnel_data'')
          (fst (fst (generate_questions (CompanyName company_name) openai_client
                            company_code id_counter num_questions w)))"
    by (rule generate_questions_all) (rule format_question_personnel, assumption, simp)
  then show ?thesis
    by (simp add: list_all_iff)
qed

text \<open>
  A response with one question of the category \<open>Financial Performance\<close>: the question
  returned is filed under \<open>Key Personnel\<close>.
\<close>

theorem personnel_questions_forced_witness:
  "fst (fst (generate_questions (CompanyName ''Bank Muscat'') client_financial ''BM'' 1000 1 w0)) \<noteq> [] \<and>
   md_category (q_metadata (hd (fst (fst (generate_questions (CompanyName ''Bank Muscat'')
       client_financial ''BM'' 1000 1 w0))))) = JStr ''Key Personnel'' \<and>
   md_source_type (q_metadata (hd (fst (fst (generate_questions (CompanyName ''Bank Muscat'')
       client_financial ''BM'' 1000 1 w0))))) = ''personnel_data''"
proof -
  have ne: "fst (fst (generate_questions (CompanyName ''Bank Muscat'') client_financial ''BM'' 1000 1 w0)) \<noteq> []"
    by code_simp
  then have "hd (fst (fst (generate_questions (CompanyName ''Bank Muscat'') client_financial ''BM'' 1000 1 w0)))
      \<in> set (fst (fst (generate_questions (CompanyName ''Bank Muscat'') client_financial ''BM'' 1000 1 w0)))"
    by (rule hd_in_set)
  then show ?thesis
    using personnel_questions_forced[of "''Bank Muscat''" client_financial "''BM''" 1000 1 w0] ne
    by blast
qed

subsection \<open>Claim C10: the provenance of personnel questions\<close>

text \<open>
  Claim C10.  When the synthesizer is called with a bare company name, every question it
  returns has the report year \<open>2024\<close>, the source chunk id \<open>0\<close> and, as source file, the
  company name with its spaces replaced by underscores followed by \<open>_Report_2024.pdf\<close>,
  whatever the generation service answers.  This holds for every company name, with or
  without underscores.
\<close>

theorem personnel_questions_provenance:
  "\<forall>q \<in> set (fst (fst (generate_questions (CompanyName company_name) openai_client
                            company_code id_counter num_questions w))).
      md_report_year (q_metadata q) = ''2024'' \<and>
      md_source_chunk_id (q_metadata q) = ''0'' \<and>
      md_source_file (q_metadata q)
        = replace_char CHR '' '' CHR ''_'' company_name @ ''_Report_2024.pdf''"
proof -
  have "list_all (\<lambda>q. md_report_year (q_metadata q) = ''2024'' \<and>
      md_source_chunk_id (q_metadata q) = ''0'' \<and>
      md_source_file (q_metadata q)
        = replace_char CHR '' '' CHR ''_'' company_name @ ''_Report_2024.pdf'')
          (fst (fst (generate_questions (CompanyName company_name) openai_client
                            company_code id_counter num_questions w)))"
    by (rule generate_questions_all) (drule format_question_provenance, simp)
  then show ?thesis
    by (simp add: list_all_iff)
qed

text \<open>For \<open>Bank Muscat\<close> the source file is \<open>Bank_Muscat_Report_2024.pdf\<close>.\<close>

theorem personnel_questions_provenance_witness:
  "fst (fst (generate_questions (CompanyName ''Bank Muscat'') client_exact ''BM'' 1000 1 w0)) \<noteq> [] \<and>
   md_report_year (q_metadata (hd (fst (fst (generate_questions (CompanyName ''Bank Muscat'')
       client_exact ''BM'' 1000 1 w0))))) = ''2024'' \<and>
   md_source_chunk_id (q_metadata (hd (fst (fst (generate_questions (CompanyName ''Bank Muscat'')
       client_exact ''BM'' 1000 1 w0))))) = ''0'' \<and>
   md_source_file (q_metadata (hd (fst (fst (generate_questions (CompanyName ''Bank Muscat'')
       client_exact ''BM'' 1000 1 w0))))) = ''Bank_Muscat_Report_2024.pdf''"
proof -
  have ne: "fst (fst (generate_questions (CompanyName ''Bank Muscat'') client_exact ''BM'' 1000 1 w0)) \<noteq> []"
    by code_simp
  then have "hd (fst (fst (generate_questions (CompanyName ''Bank Muscat'') client_exact ''BM'' 1000 1 w0)))
      \<in> set (fst (fst (generate_questions (CompanyName ''Bank Muscat'') client_exact ''BM'' 1000 1 w0)))"
    by (rule hd_in_set)
  moreover have "replace_char CHR '' '' CHR ''_'' ''Bank Muscat'' @ ''_Report_2024.pdf'' = ''Bank_Muscat_Report_2024.pdf''"
    by code_simp
  ultimately show ?thesis
    using personnel_questions_provenance[of "''Bank Muscat''" client_exact "''BM''" 1000 1 w0] ne
    by (metis (no_types, lifting))
qed

subsection \<open>Claim C9: failed calls and the counter\<close>

text \<open>
  When the request raises or the response is not JSON, the call returns no question and
  the counter it was given; and a call returns either no question or the whole list the
  loop over the parsed questions built.
\<close>

lemma generate_questions_failed_call:
  assumes "openai_client (length (w_calls w))
             \<lparr>pr_num_questions = num_questions,
              pr_context = si_prompt_context (source_of data),
              pr_text = si_text (source_of data)\<rparr> \<in> {Raised, NotJson}"
  shows "fst (generate_questions data openai_client company_code id_counter num_questions w)
           = ([], id_counter)"
  using assms by (auto simp: generate_questions_def Let_def)

lemma generate_questions_no_questions_on_error:
  "(\<exists>c. fst (generate_questions data openai_client company_code id_counter num_questions w) = ([], c))
   \<or> (\<exists>items qs c. format_loop (source_of data) company_code items id_counter [] = (Inr qs, c)
         \<and> fst (generate_questions data openai_client company_code id_counter num_questions w) = (qs, c))"
  by (auto simp: generate_questions_def Let_def split: api_outcome.splits sum.splits prod.splits)

text \<open>
  Claim C9 does not hold of the code.  When the response is JSON but not the expected
  array of question objects, the exception arrives inside the loop, after
  \<open>id_counter += 1\<close>, and the handler returns the counter as the loop left it.  Here the
  response is an array with one object that has no \<open>options\<close>: the call returns no
  question, and the counter 1001 for the 1000 it was given.
\<close>

theorem malformed_response_advances_counter:
  "fst (generate_questions (CompanyName ''Bank Muscat'') client_missing_options ''BM'' 1000 5 w0)
     = ([], 1001)"
  by code_simp

section \<open>The per-company driver: the calls it issues\<close>

lemma requests_nonpos [simp]: "needed \<le> 0 \<Longrightarrow> requests needed cs = []"
  by (cases cs) simp_all

lemma requests_append:
  "requests needed (xs @ ys)
     = requests needed xs @ requests (needed - requested_total (requests needed xs)) ys"
proof (induction xs arbitrary: needed)
  case Nil
  then show ?case by (simp add: requested_total_def)
next
  case (Cons x xs)
  show ?case
  proof (cases "needed \<le> 0")
    case True
    then show ?thesis by (simp add: requested_total_def)
  next
    case False
    then show ?thesis
      using Cons.IH[of "needed - min 5 needed"]
      by (simp add: requested_total_def algebra_simps)
  qed
qed

lemma chunk_questions_loop_exact:
  assumes exact: "\<forall>chunk code ctr n w. 0 < n \<and> n \<le> 5 \<longrightarrow>
            int (length (fst (fst (generate_questions (ChunkData chunk) openai_client code ctr n w)))) = n"
  shows "\<exists>qs ctr'.
           chunk_questions_loop openai_client company_code cs (all_questions, id_counter, needed, w)
             = (all_questions @ qs, ctr', needed - requested_total (requests needed cs),
                w\<lparr>w_calls := w_calls w @ map call_of (requests needed cs)\<rparr>)
           \<and> int (length qs) = requested_total (requests needed cs)"
proof (induction cs arbitrary: all_questions id_counter needed w)
  case Nil
  then show ?case by (simp add: requested_total_def)
next
  case (Cons c cs)
  show ?case
  proof (cases "needed \<le> 0")
    case True
    then show ?thesis by (simp add: requested_total_def)
  next
    case False
    define n where "n = min 5 needed"
    have n: "0 < n" "n \<le> 5" using False by (auto simp: n_def)
    obtain qs1 ctr1 w1 where
      g: "generate_questions (ChunkData c) openai_client company_code id_counter n w = ((qs1, ctr1), w1)"
      by (metis surj_pair)
    have len1: "int (length qs1) = n"
      using exact n g by (metis fst_conv)
    have w1: "w1 = w\<lparr>w_calls := w_calls w @ [call_of (c, n)]\<rparr>"
      using generate_questions_world[of "ChunkData c" openai_client company_code id_counter n w] g
      by (simp add: call_of_def)
    obtain qs ctr' where
      ih: "chunk_questions_loop openai_client company_code cs (all_questions @ qs1, ctr1, needed - n, w1)
             = ((all_questions @ qs1) @ qs, ctr', needed - n - requested_total (requests (needed - n) cs),
                w1\<lparr>w_calls := w_calls w1 @ map call_of (requests (needed - n) cs)\<rparr>)"
      and lenqs: "int (length qs) = requested_total (requests (needed - n) cs)"
      using Cons.IH[of "all_questions @ qs1" ctr1 "needed - n" w1] by blast
    have step: "chunk_questions_loop openai_client company_code (c # cs) (all_questions, id_counter, needed, w)
        = chunk_questions_loop openai_client company_code cs (all_questions @ qs1, ctr1, needed - n, w1)"
      using n g len1 by (simp add: n_def[symmetric] Let_def)
    have req: "requests needed (c # cs) = (c, n) # requests (needed - n) cs"
      using False by (simp add: n_def)
    show ?thesis
      apply (rule exI[of _ "qs1 @ qs"], rule exI[of _ ctr'])
      apply (simp only: step ih req)
      apply (simp add: w1 requested_total_def len1 lenqs[unfolded requested_total_def])
      done
  qed
qed

lemma take_min_length [simp]: "take (min 5 (length xs)) xs = take 5 xs"
  by (cases "5 \<le> length xs") (simp_all add: min_def)

lemma pdf_loop_exact:
  assumes exact: "\<forall>chunk code ctr n w. 0 < n \<and> n \<le> 5 \<longrightarrow>
            int (length (fst (fst (generate_questions (ChunkData chunk) openai_client code ctr n w)))) = n"
  shows "\<exists>qs ctr'.
           pdf_loop fs openai_client company_name company_code quota pdfs (all_questions, id_counter, w)
             = (all_questions @ qs, ctr',
                w\<lparr>w_calls := w_calls w @ map call_of
                      (requests (quota - int (length all_questions)) (usable_chunks fs company_name pdfs))\<rparr>)
           \<and> int (length qs)
               = requested_total (requests (quota - int (length all_questions))
                                    (usable_chunks fs company_name pdfs))"
proof (induction pdfs arbitrary: all_questions id_counter w)
  case Nil
  then show ?case by (simp add: usable_chunks_def requested_total_def)
next
  case (Cons pdf rest)
  let ?needed = "quota - int (length all_questions)"
  show ?case
  proof (cases "extract_text_from_pdf fs (pdf_path pdf)")
    case None
    then show ?thesis
      using Cons.IH[of all_questions id_counter w] by (simp add: usable_chunks_def)
  next
    case (Some document_text)
    show ?thesis
    proof (cases "document_text = []")
      case True
      then show ?thesis
        using Some Cons.IH[of all_questions id_counter w] by (simp add: usable_chunks_def)
    next
      case False
      define cs where "cs = take 5 (create_chunks_from_text document_text (with_company pdf company_name))"
      have usable: "usable_chunks fs company_name (pdf # rest) = cs @ usable_chunks fs company_name rest"
        using Some False by (simp add: usable_chunks_def cs_def)
      show ?thesis
      proof (cases "?needed \<le> 0")
        case True
        then show ?thesis
          using Some False by (simp add: Let_def requested_total_def)
      next
        case pos: False
        obtain qs1 ctr1 where
          inner: "chunk_questions_loop openai_client company_code cs (all_questions, id_counter, ?needed, w)
             = (all_questions @ qs1, ctr1, ?needed - requested_total (requests ?needed cs),
                w\<lparr>w_calls := w_calls w @ map call_of (requests ?needed cs)\<rparr>)"
          and len1: "int (length qs1) = requested_total (requests ?needed cs)"
          using chunk_questions_loop_exact[OF exact] by blast
        define w1 where "w1 = w\<lparr>w_calls := w_calls w @ map call_of (requests ?needed cs)\<rparr>"
        obtain qs2 ctr2 where
          outer: "pdf_loop fs openai_client company_name company_code quota rest (all_questions @ qs1, ctr1, w1)
             = ((all_questions @ qs1) @ qs2, ctr2,
                w1\<lparr>w_calls := w_calls w1 @ map call_of
                      (requests (quota - int (length (all_questions @ qs1))) (usable_chunks fs company_name rest))\<rparr>)"
          and len2: "int (length qs2)
               = requested_total (requests (quota - int (length (all_questions @ qs1)))
                                    (usable_chunks fs company_name rest))"
          using Cons.IH[of "all_questions @ qs1" ctr1 w1] by blast
        have step: "pdf_loop fs openai_client company_name company_code quota (pdf # rest) (all_questions, id_counter, w)
              = pdf_loop fs openai_client company_name company_code quota rest (all_questions @ qs1, ctr1, w1)"
          using Some False pos inner by (simp add: Let_def cs_def[symmetric] w1_def)
        have needed2: "quota - int (length (all_questions @ qs1)) = ?needed - requested_total (requests ?needed cs)"
          using len1 by simp
        show ?thesis
          apply (rule exI[of _ "qs1 @ qs2"], rule exI[of _ ctr2])
          apply (simp only: step outer usable requests_append needed2)
          apply (simp add: w1_def len1 len2[unfolded needed2] requested_total_def)
          done
      qed
    qed
  qed
qed

lemma pdf_loop_no_chunks:
  assumes "\<forall>pdf \<in> set pdfs.
             (case extract_text_from_pdf fs (pdf_path pdf) of
                None \<Rightarrow> True
              | Some document_text \<Rightarrow>
                  create_chunks_from_text document_text (with_company pdf company_name) = [])"
  shows "pdf_loop fs openai_client company_name company_code quota pdfs st = st"
  using assms
proof (induction pdfs)
  case Nil
  then show ?case by simp
next
  case (Cons pdf rest)
  obtain all_questions id_counter w where st: "st = (all_questions, id_counter, w)"
    by (cases st) auto
  from Cons show ?case
    by (auto simp: st Let_def split: option.splits)
qed

lemma process_company_documents_reaches_loop:
  assumes "pdf_infos \<noteq> []" "fs_makedirs_ok fs output_dir"
    and "fs_makedirs_ok fs (os_path_join output_dir (pdf_country (hd pdf_infos)))"
  shows "process_company_documents fs company_name pdf_infos output_dir openai_client quota w
     = (case personnel_step openai_client company_name (generate_company_code company_name) quota
               (pdf_loop fs openai_client company_name (generate_company_code company_name) quota
                  pdf_infos ([], 1000, w)) of
          (all_questions, id_counter, w') \<Rightarrow>
            if fs_write_ok fs (company_file output_dir (company_name, pdf_infos))
            then (Inr all_questions,
                  w'\<lparr>w_files := w_files w' @
                       [(company_file output_dir (company_name, pdf_infos),
                         QuestionLines all_questions)]\<rparr>)
            else (Inl OSError, w'))"
  using assms
  by (cases pdf_infos)
     (auto simp: process_company_documents_def company_file_def Let_def split: prod.splits)

text \<open>
  When one of the two directories cannot be created, the driver raises before the loop
  and issues no call.
\<close>

lemma process_company_documents_no_directory:
  assumes "pdf_infos \<noteq> []"
    and "\<not> (fs_makedirs_ok fs output_dir \<and>
            fs_makedirs_ok fs (os_path_join output_dir (pdf_country (hd pdf_infos))))"
  shows "process_company_documents fs company_name pdf_infos output_dir openai_client quota w
           = (Inl OSError, w)"
  using assms
  by (cases pdf_infos) (auto simp: process_company_documents_def Let_def)

lemma process_company_documents_returned:
  assumes "fst (process_company_documents fs company_name pdf_infos output_dir openai_client quota w)
             = Inr all_questions"
  shows "pdf_infos \<noteq> [] \<and> fs_makedirs_ok fs output_dir \<and>
         fs_makedirs_ok fs (os_path_join output_dir (pdf_country (hd pdf_infos)))"
  using assms
  by (cases pdf_infos)
     (auto simp: process_company_documents_def Let_def split: if_splits prod.splits)

lemma usable_chunks_long:
  "length (usable_chunks fs_long ''First Abu Dhabi Bank'' [pdf0]) = 3"
  by (simp add: usable_chunks_def extract_text_from_pdf_def fs_long_def pdf0_def
      length_create_chunks chunk_count_def)

subsection \<open>Claim C7: quota 12 is met by three chunk calls\<close>

text \<open>
  Claim C7.  With a quota of 12, documents that yield at least three usable chunks (each
  document contributes at most its first five), and a generation service for which every
  chunk call returns exactly the number of questions requested, the loop over the
  documents and the personnel step after it issue exactly three calls, on the first three
  usable chunks, requesting 5, 5 and 2 questions, and no personnel call.  These are the
  calls of the whole driver whenever it reaches the loop, that is, whenever the output
  directory and the country directory can be created; whether the file can be written
  afterwards does not matter.
\<close>

theorem quota_twelve_three_chunk_calls:
  assumes "\<forall>chunk code ctr n w. 0 < n \<and> n \<le> 5 \<longrightarrow>
            int (length (fst (fst (generate_questions (ChunkData chunk) openai_client code ctr n w)))) = n"
    and "3 \<le> length (usable_chunks fs company_name pdf_infos)"
  shows "w_calls (snd (snd (personnel_step openai_client company_name company_code 12
                              (pdf_loop fs openai_client company_name company_code 12
                                 pdf_infos ([], 1000, w)))))
           = w_calls w @
             [\<lparr>gc_data = ChunkData (usable_chunks fs company_name pdf_infos ! 0), gc_num_questions = 5\<rparr>,
              \<lparr>gc_data = ChunkData (usable_chunks fs company_name pdf_infos ! 1), gc_num_questions = 5\<rparr>,
              \<lparr>gc_data = ChunkData (usable_chunks fs company_name pdf_infos ! 2), gc_num_questions = 2\<rparr>]
         \<and> (fs_makedirs_ok fs output_dir \<and>
              fs_makedirs_ok fs (os_path_join output_dir (pdf_country (hd pdf_infos))) \<longrightarrow>
            w_calls (snd (process_company_documents fs company_name pdf_infos output_dir
                            openai_client 12 w))
              = w_calls w @
                [\<lparr>gc_data = ChunkData (usable_chunks fs company_name pdf_infos ! 0), gc_num_questions = 5\<rparr>,
                 \<lparr>gc_data = ChunkData (usable_chunks fs company_name pdf_infos ! 1), gc_num_questions = 5\<rparr>,
                 \<lparr>gc_data = ChunkData (usable_chunks fs company_name pdf_infos ! 2), gc_num_questions = 2\<rparr>])"
proof -
  obtain c1 c2 c3 more where cs: "usable_chunks fs company_name pdf_infos = c1 # c2 # c3 # more"
    using assms(2)
    by (metis (no_types, opaque_lifting) Suc_le_length_iff numeral_3_eq_3)
  then have ne: "pdf_infos \<noteq> []"
    by (auto simp: usable_chunks_def)
  have req: "requests 12 (c1 # c2 # c3 # more) = [(c1, 5), (c2, 5), (c3, 2)]"
    by simp
  have calls: "w_calls (snd (snd (personnel_step openai_client company_name code 12
                              (pdf_loop fs openai_client company_name code 12
                                 pdf_infos ([], 1000, w)))))
           = w_calls w @ [call_of (c1, 5), call_of (c2, 5), call_of (c3, 2)]" for code
  proof -
    obtain qs ctr where
      loop: "pdf_loop fs openai_client company_name code 12 pdf_infos ([], 1000, w)
               = ([] @ qs, ctr,
                  w\<lparr>w_calls := w_calls w @ map call_of
                        (requests (12 - int (length ([]::question list)))
                           (usable_chunks fs company_name pdf_infos))\<rparr>)"
      and len: "int (length qs)
                 = requested_total (requests (12 - int (length ([]::question list)))
                                      (usable_chunks fs company_name pdf_infos))"
      using pdf_loop_exact[OF assms(1), of fs company_name code 12 pdf_infos "[]" 1000 w] by blast
    have len12: "length qs = 12"
      using len by (simp add: cs requested_total_def)
    have loop': "pdf_loop fs openai_client company_name code 12 pdf_infos ([], 1000, w)
               = (qs, ctr, w\<lparr>w_calls := w_calls w @ [call_of (c1, 5), call_of (c2, 5), call_of (c3, 2)]\<rparr>)"
      using loop by (simp add: cs)
    show ?thesis
      by (simp add: loop' personnel_step_def len12)
  qed
  have driver: "w_calls (snd (process_company_documents fs company_name pdf_infos output_dir
                            openai_client 12 w))
              = w_calls w @ [call_of (c1, 5), call_of (c2, 5), call_of (c3, 2)]"
    if dirs: "fs_makedirs_ok fs output_dir"
      "fs_makedirs_ok fs (os_path_join output_dir (pdf_country (hd pdf_infos)))"
  proof -
    obtain a b w1 where
      p: "personnel_step openai_client company_name (generate_company_code company_name) 12
            (pdf_loop fs openai_client company_name (generate_company_code company_name) 12
               pdf_infos ([], 1000, w)) = (a, b, w1)"
      by (metis surj_pair)
    have "w_calls w1 = w_calls w @ [call_of (c1, 5), call_of (c2, 5), call_of (c3, 2)]"
      using calls[of "generate_company_code company_name"] p by simp
    then show ?thesis
      using p by (simp add: process_company_documents_reaches_loop[OF ne dirs])
  qed
  show ?thesis
    using calls[of company_code] driver by (simp add: cs call_of_def)
qed

text \<open>
  One document of 2700 characters gives three chunks; with a service that returns what
  is asked for and an output directory that can be created, the calls request 5, 5 and
  2 questions.
\<close>

theorem quota_twelve_three_chunk_calls_witness:
  "3 \<le> length (usable_chunks fs_long ''First Abu Dhabi Bank'' [pdf0]) \<and>
   fs_makedirs_ok fs_long ''output'' \<and>
   fs_makedirs_ok fs_long (os_path_join ''output'' (pdf_country (hd [pdf0]))) \<and>
   map gc_num_questions
     (w_calls (snd (snd (personnel_step client_exact ''First Abu Dhabi Bank'' ''FAB'' 12
                           (pdf_loop fs_long client_exact ''First Abu Dhabi Bank'' ''FAB'' 12
                              [pdf0] ([], 1000, w0))))))
     = [5, 5, 2] \<and>
   map gc_num_questions
     (w_calls (snd (process_company_documents fs_long ''First Abu Dhabi Bank'' [pdf0] ''output''
                      client_exact 12 w0)))
     = [5, 5, 2]"
proof -
  have exact: "\<forall>chunk code ctr n w. 0 < n \<and> n \<le> 5 \<longrightarrow>
            int (length (fst (fst (generate_questions (ChunkData chunk) client_exact code ctr n w)))) = n"
    by (simp add: client_exact_returns_requested)
  have three: "3 \<le> length (usable_chunks fs_long ''First Abu Dhabi Bank'' [pdf0])"
    by (simp add: usable_chunks_long)
  have dirs: "fs_makedirs_ok fs_long ''output''"
      "fs_makedirs_ok fs_long (os_path_join ''output'' (pdf_country (hd [pdf0])))"
    by (simp_all add: fs_long_def os_path_join_def)
  show ?thesis
    using quota_twelve_three_chunk_calls[OF exact three, of "''FAB''" w0 "''output''"] three dirs
    by (simp add: w0_def)
qed

subsection \<open>Claim C8: without chunks, one personnel call for the whole quota\<close>

text \<open>
  Claim C8.  With a quota of 20 and no chunks available, because the extraction of every
  document fails (or gives a text the chunker makes no chunk of), the loop over the
  documents issues no call and the personnel step after it exactly one, in personnel
  mode, requesting 20 questions.  This one call is all the driver issues whenever it
  reaches the loop, that is, whenever the output directory and the country directory can
  be created; whether the file can be written afterwards does not matter.
\<close>

theorem no_chunks_one_personnel_call:
  assumes "pdf_infos \<noteq> []"
    and "\<forall>pdf \<in> set pdf_infos.
             (case extract_text_from_pdf fs (pdf_path pdf) of
                None \<Rightarrow> True
              | Some document_text \<Rightarrow>
                  create_chunks_from_text document_text (with_company pdf company_name) = [])"
  shows "w_calls (snd (snd (personnel_step openai_client company_name company_code 20
                              (pdf_loop fs openai_client company_name company_code 20
                                 pdf_infos ([], 1000, w)))))
           = w_calls w @ [\<lparr>gc_data = CompanyName company_name, gc_num_questions = 20\<rparr>]
         \<and> (fs_makedirs_ok fs output_dir \<and>
              fs_makedirs_ok fs (os_path_join output_dir (pdf_country (hd pdf_infos))) \<longrightarrow>
            w_calls (snd (process_company_documents fs company_name pdf_infos output_dir
                            openai_client 20 w))
              = w_calls w @ [\<lparr>gc_data = CompanyName company_name, gc_num_questions = 20\<rparr>])"
proof -
  have calls: "w_calls (snd (snd (personnel_step openai_client company_name code 20
                              (pdf_loop fs openai_client company_name code 20
                                 pdf_infos ([], 1000, w)))))
           = w_calls w @ [\<lparr>gc_data = CompanyName company_name, gc_num_questions = 20\<rparr>]" for code
  proof -
    have loop: "pdf_loop fs openai_client company_name code 20 pdf_infos ([], 1000, w) = ([], 1000, w)"
      by (rule pdf_loop_no_chunks) (rule assms(2))
    obtain qs ctr w1 where
      g: "generate_questions (CompanyName company_name) openai_client code 1000 20 w = ((qs, ctr), w1)"
      by (metis surj_pair)
    have w1: "w_calls w1 = w_calls w @ [\<lparr>gc_data = CompanyName company_name, gc_num_questions = 20\<rparr>]"
      using generate_questions_world[of "CompanyName company_name" openai_client code 1000 20 w] g
      by simp
    have "personnel_step openai_client company_name code 20 ([], 1000, w) = (qs, ctr, w1)"
      using g by (simp add: personnel_step_def)
    then show ?thesis
      using loop w1 by simp
  qed
  have driver: "w_calls (snd (process_company_documents fs company_name pdf_infos output_dir
                            openai_client 20 w))
              = w_calls w @ [\<lparr>gc_data = CompanyName company_name, gc_num_questions = 20\<rparr>]"
    if dirs: "fs_makedirs_ok fs output_dir"
      "fs_makedirs_ok fs (os_path_join output_dir (pdf_country (hd pdf_infos)))"
  proof -
    obtain a b w1 where
      p: "personnel_step openai_client company_name (generate_company_code company_name) 20
            (pdf_loop fs openai_client company_name (generate_company_code company_name) 20
               pdf_infos ([], 1000, w)) = (a, b, w1)"
      by (metis surj_pair)
    have "w_calls w1 = w_calls w @ [\<lparr>gc_data = CompanyName company_name, gc_num_questions = 20\<rparr>]"
      using calls[of "generate_company_code company_name"] p by simp
    then show ?thesis
      using p by (simp add: process_company_documents_reaches_loop[OF assms(1) dirs])
  qed
  show ?thesis
    using calls[of company_code] driver by simp
qed

text \<open>One document whose extraction fails, and an output directory that can be created.\<close>

theorem no_chunks_one_personnel_call_witness:
  "[pdf0] \<noteq> [] \<and> extract_text_from_pdf fs_unreadable (pdf_path pdf0) = None \<and>
   fs_makedirs_ok fs_unreadable ''output'' \<and>
   fs_makedirs_ok fs_unreadable (os_path_join ''output'' (pdf_country (hd [pdf0]))) \<and>
   w_calls (snd (snd (personnel_step client_exact ''First Abu Dhabi Bank'' ''FAB'' 20
                        (pdf_loop fs_unreadable client_exact ''First Abu Dhabi Bank'' ''FAB'' 20
                           [pdf0] ([], 1000, w0)))))
     = [\<lparr>gc_data = CompanyName ''First Abu Dhabi Bank'', gc_num_questions = 20\<rparr>] \<and>
   w_calls (snd (process_company_documents fs_unreadable ''First Abu Dhabi Bank'' [pdf0] ''output''
                   client_exact 20 w0))
     = [\<lparr>gc_data = CompanyName ''First Abu Dhabi Bank'', gc_num_questions = 20\<rparr>]"
proof -
  have ex: "extract_text_from_pdf fs_unreadable (pdf_path pdf0) = None"
    by (simp add: extract_text_from_pdf_def fs_unreadable_def)
  have dirs: "fs_makedirs_ok fs_unreadable ''output''"
      "fs_makedirs_ok fs_unreadable (os_path_join ''output'' (pdf_country (hd [pdf0])))"
    by (simp_all add: fs_unreadable_def os_path_join_def)
  have none: "\<forall>pdf \<in> set [pdf0].
             (case extract_text_from_pdf fs_unreadable (pdf_path pdf) of
                None \<Rightarrow> True
              | Some document_text \<Rightarrow>
                  create_chunks_from_text document_text (with_company pdf ''First Abu Dhabi Bank'') = [])"
    by (simp add: ex)
  have ne: "[pdf0] \<noteq> []"
    by simp
  show ?thesis
    using no_chunks_one_personnel_call[OF ne none, of client_exact "''FAB''" w0 "''output''"] ex dirs
    by (simp add: w0_def)
qed

subsection \<open>Claim C1: the ids of a company's questions\<close>

text \<open>
  The decimal rendering of the counter is injective, and the loop over the parsed
  questions numbers them consecutively from the counter it starts with.
\<close>

lemma digit_char_inj: "a < 10 \<Longrightarrow> b < 10 \<Longrightarrow> digit_char a = digit_char b \<Longrightarrow> a = b"
proof -
  assume a: "a < 10" and b: "b < 10" and eq: "digit_char a = digit_char b"
  have "(of_char (digit_char a) :: nat) = of_char (digit_char b)"
    using eq by simp
  then show "a = b"
    using a b by (simp add: digit_char_def)
qed

lemma str_nat_nonempty: "str_nat n \<noteq> []"
  by (subst str_nat.simps) simp

lemma str_nat_inj: "str_nat n = str_nat m \<Longrightarrow> n = m"
proof (induction n arbitrary: m rule: str_nat.induct)
  case (1 n)
  show ?case
  proof (cases "n < 10")
    case small: True
    show ?thesis
    proof (cases "m < 10")
      case True
      then show ?thesis
        using "1.prems" small digit_char_inj
        by (simp add: str_nat.simps[of n] str_nat.simps[of m])
    next
      case False
      then show ?thesis
        using "1.prems" small str_nat_nonempty[of "m div 10"]
        by (simp add: str_nat.simps[of n] str_nat.simps[of m])
    qed
  next
    case large: False
    show ?thesis
    proof (cases "m < 10")
      case True
      then show ?thesis
        using "1.prems" large str_nat_nonempty[of "n div 10"]
        by (simp add: str_nat.simps[of n] str_nat.simps[of m])
    next
      case False
      then have "str_nat (n div 10) = str_nat (m div 10)"
        and d: "digit_char (n mod 10) = digit_char (m mod 10)"
        using "1.prems" large by (simp_all add: str_nat.simps[of n] str_nat.simps[of m])
      then have "n div 10 = m div 10"
        using "1.IH"[OF large] by simp
      moreover have "n mod 10 = m mod 10"
        using d by (intro digit_char_inj) simp_all
      ultimately show ?thesis
        by (metis div_mult_mod_eq)
    qed
  qed
qed

lemma str_int_inj: "0 \<le> a \<Longrightarrow> 0 \<le> b \<Longrightarrow> str_int a = str_int b \<Longrightarrow> a = b"
  by (auto simp: str_int_def dest!: str_nat_inj)

lemma format_loop_counter_mono:
  "format_loop src company_code items id_counter acc = (r, c) \<Longrightarrow> id_counter \<le> c"
proof (induction items arbitrary: id_counter acc)
  case Nil
  then show ?case by simp
next
  case (Cons question rest)
  show ?case
  proof (cases "format_question src company_code (id_counter + 1) question")
    case (Inl e)
    then show ?thesis using Cons.prems by (simp add: Let_def)
  next
    case (Inr fq)
    then have "format_loop src company_code rest (id_counter + 1) (acc @ [fq]) = (r, c)"
      using Cons.prems by (simp add: Let_def)
    then have "id_counter + 1 \<le> c"
      by (rule Cons.IH)
    then show ?thesis by simp
  qed
qed

lemma q_id_format_question:
  "format_question src company_code id_counter question = Inr fq \<Longrightarrow>
   q_id fq = company_code @ str_int id_counter"
  by (auto simp: format_question_def bind_err_def Let_def split: sum.splits)

lemma format_loop_ids:
  "format_loop src company_code items id_counter acc = (Inr qs, c) \<Longrightarrow>
   c = id_counter + int (length items) \<and>
   map q_id qs = map q_id acc @
     map (\<lambda>k. company_code @ str_int (id_counter + 1 + int k)) [0..<length items]"
proof (induction items arbitrary: id_counter acc)
  case Nil
  then show ?case by simp
next
  case (Cons question rest)
  from Cons.prems obtain fq where
    fq: "format_question src company_code (id_counter + 1) question = Inr fq" and
    rest: "format_loop src company_code rest (id_counter + 1) (acc @ [fq]) = (Inr qs, c)"
    by (auto simp: Let_def split: sum.splits)
  have "[0..<length (question # rest)] = 0 # map Suc [0..<length rest]"
    by (simp only: map_Suc_upt length_Cons) (simp add: upt_conv_Cons del: upt_Suc)
  then show ?case
    using Cons.IH[OF rest] q_id_format_question[OF fq]
    by (simp add: o_def add.assoc add.commute add.left_commute)
qed

lemma generate_questions_cases:
  assumes "generate_questions data openai_client company_code id_counter num_questions w
             = ((qs, c), w')"
  obtains (failed) "qs = []" "id_counter \<le> c"
    | (returned) items where
        "format_loop (source_of data) company_code items id_counter [] = (Inr qs, c)"
  using assms
  by (auto simp: generate_questions_def Let_def
           split: api_outcome.splits sum.splits prod.splits dest: format_loop_counter_mono)

lemma generate_questions_ids:
  assumes "generate_questions data openai_client company_code id_counter num_questions w
             = ((qs, c), w')"
  shows "id_counter + int (length qs) \<le> c \<and>
         map q_id qs = map (\<lambda>k. company_code @ str_int (id_counter + 1 + int k)) [0..<length qs]"
  using assms
proof (cases rule: generate_questions_cases)
  case failed
  then show ?thesis by simp
next
  case (returned items)
  have ids: "c = id_counter + int (length items)"
    "map q_id qs = map (\<lambda>k. company_code @ str_int (id_counter + 1 + int k)) [0..<length items]"
    using format_loop_ids[OF returned] by simp_all
  have "length (map q_id qs) = length items"
    by (simp only: ids(2)) simp
  then have "length qs = length items"
    by simp
  then show ?thesis
    using ids by simp
qed

text \<open>
  What every call of the synthesizer preserves holds of the questions and the counter
  at the end of the loops, and so of the questions of a company.
\<close>

lemma chunk_questions_loop_invariant:
  assumes step: "\<And>data ctr n w allq qs c w'.
      P allq ctr \<Longrightarrow>
      generate_questions data openai_client company_code ctr n w = ((qs, c), w') \<Longrightarrow>
      P (allq @ qs) c"
    and "P all_questions id_counter"
    and "chunk_questions_loop openai_client company_code cs (all_questions, id_counter, needed, w)
           = (all_questions', id_counter', needed', w')"
  shows "P all_questions' id_counter'"
  using assms(2,3)
proof (induction cs arbitrary: all_questions id_counter needed w)
  case Nil
  then show ?case by simp
next
  case (Cons chunk rest)
  show ?case
  proof (cases "needed \<le> 0")
    case True
    then show ?thesis using Cons.prems by simp
  next
    case False
    then have pos: "\<not> min 5 needed \<le> 0" by simp
    obtain qs c w1 where
      g: "generate_questions (ChunkData chunk) openai_client company_code id_counter (min 5 needed) w
            = ((qs, c), w1)"
      by (metis surj_pair)
    have "chunk_questions_loop openai_client company_code rest
            (all_questions @ qs, c, needed - int (length qs), w1)
          = (all_questions', id_counter', needed', w')"
      using Cons.prems(2) pos g by (simp add: Let_def)
    then show ?thesis
      using Cons.IH step[OF Cons.prems(1) g] by blast
  qed
qed

lemma pdf_loop_invariant:
  assumes step: "\<And>data ctr n w allq qs c w'.
      P allq ctr \<Longrightarrow>
      generate_questions data openai_client company_code ctr n w = ((qs, c), w') \<Longrightarrow>
      P (allq @ qs) c"
    and "P all_questions id_counter"
    and "pdf_loop fs openai_client company_name company_code quota pdfs (all_questions, id_counter, w)
           = (all_questions', id_counter', w')"
  shows "P all_questions' id_counter'"
  using assms(2,3)
proof (induction pdfs arbitrary: all_questions id_counter w)
  case Nil
  then show ?case by simp
next
  case (Cons pdf rest)
  show ?case
  proof (cases "extract_text_from_pdf fs (pdf_path pdf)")
    case None
    then show ?thesis using Cons by simp
  next
    case (Some document_text)
    show ?thesis
    proof (cases "document_text = []")
      case True
      then show ?thesis using Some Cons by simp
    next
      case False
      show ?thesis
      proof (cases "quota - int (length all_questions) \<le> 0")
        case True
        then show ?thesis using Some False Cons.prems by (simp add: Let_def)
      next
        case needed: False
        define cs where "cs = take 5 (create_chunks_from_text document_text (with_company pdf company_name))"
        obtain a b c w1 where
          inner: "chunk_questions_loop openai_client company_code cs
                    (all_questions, id_counter, quota - int (length all_questions), w) = (a, b, c, w1)"
          by (metis surj_pair)
        have "P a b"
          by (rule chunk_questions_loop_invariant[where P = P, OF _ Cons.prems(1) inner])
             (rule step, assumption+)
        moreover have "pdf_loop fs openai_client company_name company_code quota rest (a, b, w1)
             = (all_questions', id_counter', w')"
          using Cons.prems(2) Some False needed inner by (simp add: Let_def cs_def[symmetric])
        ultimately show ?thesis
          using Cons.IH by blast
      qed
    qed
  qed
qed

lemma process_company_documents_invariant:
  assumes step: "\<And>data ctr n w allq qs c w'.
      P allq ctr \<Longrightarrow>
      generate_questions data openai_client (generate_company_code company_name) ctr n w
        = ((qs, c), w') \<Longrightarrow>
      P (allq @ qs) c"
    and "P [] 1000"
    and "fst (process_company_documents fs company_name pdf_infos output_dir openai_client quota w)
           = Inr all_questions"
  shows "\<exists>id_counter. P all_questions id_counter"
proof -
  let ?code = "generate_company_code company_name"
  note reached = process_company_documents_returned[OF assms(3)]
  obtain a b w1 where
    loop: "pdf_loop fs openai_client company_name ?code quota pdf_infos ([], 1000, w) = (a, b, w1)"
    by (metis surj_pair)
  have ab: "P a b"
    by (rule pdf_loop_invariant[where P = P, OF _ assms(2) loop]) (rule step, assumption+)
  obtain a' b' w2 where
    pers: "personnel_step openai_client company_name ?code quota (a, b, w1) = (a', b', w2)"
    by (metis surj_pair)
  have "P a' b'"
  proof (cases "int (length a) < quota")
    case True
    obtain qs c w3 where
      g: "generate_questions (CompanyName company_name) openai_client ?code b
            (quota - int (length a)) w1 = ((qs, c), w3)"
      by (metis surj_pair)
    then have "a' = a @ qs" "b' = c"
      using pers True by (simp_all add: personnel_step_def Let_def)
    then show ?thesis
      using step[OF ab g] by simp
  next
    case False
    then show ?thesis
      using pers ab by (simp add: personnel_step_def)
  qed
  moreover have "all_questions = a'"
    using assms(3) loop pers reached
    by (simp add: process_company_documents_reaches_loop split: if_splits)
  ultimately show ?thesis by blast
qed

text \<open>
  In every run the ids of a company's questions are pairwise distinct: the counter is
  threaded through all calls and only grows.  They are the company code followed by
  1001, 1002, ... with no gaps when every call returns the counter it was given plus the
  number of questions it returns.
\<close>

lemma question_ids_distinct:
  assumes "fst (process_company_documents fs company_name pdf_infos output_dir openai_client quota w)
             = Inr all_questions"
  shows "distinct (map q_id all_questions)"
proof -
  let ?code = "generate_company_code company_name"
  define P where "P allq ctr \<longleftrightarrow>
      1000 \<le> ctr \<and>
      (\<exists>ns. map q_id allq = map (\<lambda>n. ?code @ str_int n) ns \<and> sorted_wrt (<) ns \<and>
            list_all (\<lambda>n. 1000 < n \<and> n \<le> ctr) ns)" for allq :: "question list" and ctr
  have step: "P (allq @ qs) c"
    if inv: "P allq ctr" and g: "generate_questions data openai_client ?code ctr n w0 = ((qs, c), w1)"
    for data ctr n w0 allq qs c w1
  proof -
    obtain ns where ctr: "1000 \<le> ctr"
      and ns: "map q_id allq = map (\<lambda>n. ?code @ str_int n) ns" "sorted_wrt (<) ns"
        "list_all (\<lambda>n. 1000 < n \<and> n \<le> ctr) ns"
      using inv unfolding P_def by blast
    let ?new = "map (\<lambda>k. ctr + 1 + int k) [0..<length qs]"
    have bound: "ctr + int (length qs) \<le> c"
      and ids: "map q_id qs = map (\<lambda>k. ?code @ str_int (ctr + 1 + int k)) [0..<length qs]"
      using generate_questions_ids[OF g] by simp_all
    have 1: "map q_id (allq @ qs) = map (\<lambda>n. ?code @ str_int n) (ns @ ?new)"
      using ns(1) ids by (simp add: o_def)
    have 2: "sorted_wrt (<) (ns @ ?new)"
      using ns(2,3) by (auto simp: sorted_wrt_append sorted_wrt_map list_all_iff)
    have 3: "list_all (\<lambda>n. 1000 < n \<and> n \<le> c) (ns @ ?new)"
      using ns(3) ctr bound by (auto simp: list_all_iff)
    have "1000 \<le> c"
      using ctr bound by simp
    then show ?thesis
      unfolding P_def using 1 2 3 by blast
  qed
  have start: "P [] 1000"
    by (simp add: P_def)
  have "\<exists>id_counter. P all_questions id_counter"
    by (rule process_company_documents_invariant[where P = P, OF _ start assms])
       (rule step, assumption+)
  then obtain id_counter ns where
    ns: "map q_id all_questions = map (\<lambda>n. ?code @ str_int n) ns" "sorted_wrt (<) ns"
        "list_all (\<lambda>n. 1000 < n \<and> n \<le> id_counter) ns"
    unfolding P_def by blast
  have "distinct ns"
    using ns(2) by (simp add: strict_sorted_iff)
  moreover have "inj_on (\<lambda>n. ?code @ str_int n) (set ns)"
  proof (rule inj_onI)
    fix x y
    assume "x \<in> set ns" "y \<in> set ns" "?code @ str_int x = ?code @ str_int y"
    then have "0 \<le> x" "0 \<le> y" "str_int x = str_int y"
      using ns(3) by (auto simp: list_all_iff)
    then show "x = y"
      by (rule str_int_inj)
  qed
  ultimately show ?thesis
    by (simp add: ns(1) distinct_map)
qed

lemma question_ids_gap_free:
  assumes whole: "\<forall>data ctr n w.
      snd (fst (generate_questions data openai_client (generate_company_code company_name) ctr n w))
        = ctr + int (length (fst (fst (generate_questions data openai_client
                                         (generate_company_code company_name) ctr n w))))"
    and "fst (process_company_documents fs company_name pdf_infos output_dir openai_client quota w)
             = Inr all_questions"
  shows "map q_id all_questions
           = map (\<lambda>k. generate_company_code company_name @ str_int (1001 + int k))
                 [0..<length all_questions]"
proof -
  let ?code = "generate_company_code company_name"
  define P where "P allq ctr \<longleftrightarrow>
      ctr = 1000 + int (length allq) \<and>
      map q_id allq = map (\<lambda>k. ?code @ str_int (1001 + int k)) [0..<length allq]"
    for allq :: "question list" and ctr
  have step: "P (allq @ qs) c"
    if inv: "P allq ctr" and g: "generate_questions data openai_client ?code ctr n w0 = ((qs, c), w1)"
    for data ctr n w0 allq qs c w1
  proof -
    have ctr: "ctr = 1000 + int (length allq)"
      and old: "map q_id allq = map (\<lambda>k. ?code @ str_int (1001 + int k)) [0..<length allq]"
      using inv unfolding P_def by simp_all
    have c: "c = ctr + int (length qs)"
      using whole[rule_format, of data ctr n w0] g by simp
    have ids: "map q_id qs = map (\<lambda>k. ?code @ str_int (ctr + 1 + int k)) [0..<length qs]"
      using generate_questions_ids[OF g] by simp
    have "map (\<lambda>k. k + length allq) [0..<length qs] = [length allq..<length qs + length allq]"
      by (rule map_add_upt)
    then have "[0..<length allq + length qs] = [0..<length allq] @ map (\<lambda>k. k + length allq) [0..<length qs]"
      using upt_add_eq_append[of 0 "length allq" "length qs"] by (simp only: add.commute)
    then have "map (\<lambda>k. ?code @ str_int (1001 + int k)) [0..<length (allq @ qs)]
        = map q_id allq @ map (\<lambda>k. ?code @ str_int (1001 + int (k + length allq))) [0..<length qs]"
      using old by (simp add: o_def)
    also have "\<dots> = map q_id allq @ map q_id qs"
      using ids ctr by (simp add: algebra_simps)
    finally show ?thesis
      unfolding P_def using c ctr by simp
  qed
  have start: "P [] 1000"
    by (simp add: P_def)
  have "\<exists>id_counter. P all_questions id_counter"
    by (rule process_company_documents_invariant[where P = P, OF _ start assms(2)])
       (rule step, assumption+)
  then show ?thesis
    unfolding P_def by blast
qed

text \<open>
  Claim C1 does not hold of the code, by the defect shown for claim C9.  Here the one
  document gives one chunk and the quota is 1.  The response to the chunk call is an
  array with one object that has no \<open>options\<close>: the call returns no question but the
  counter 1001.  The personnel call that follows returns one question, the only one of
  the run, and its id is \<open>FAB1002\<close>, not \<open>FAB1001\<close>.
\<close>

theorem malformed_response_shifts_ids:
  "map_sum id (map q_id)
     (fst (process_company_documents fs_short ''First Abu Dhabi Bank'' [pdf0] ''output''
             client_first_malformed 1 w0))
   = Inr [''FAB1002'']"
  by code_simp

section \<open>The corpus collector: company names\<close>

lemma group_of_dict_append:
  "group_of (dict_append key v m) k = (if k = key then group_of m key @ [v] else group_of m k)"
  by (induction m) (auto simp: group_of_def)

lemma group_of_add_pdf_mono:
  "r \<in> set (group_of m k) \<Longrightarrow> r \<in> set (group_of (add_pdf country m path) k)"
  by (auto simp: add_pdf_def Let_def group_of_dict_append)

lemma group_of_foldl_add_pdf_mono:
  "r \<in> set (group_of m k) \<Longrightarrow> r \<in> set (group_of (foldl (add_pdf country) m paths) k)"
  by (induction paths arbitrary: m) (simp_all add: group_of_add_pdf_mono)

lemma group_of_add_country_mono:
  "r \<in> set (group_of m k) \<Longrightarrow> r \<in> set (group_of (add_country m d) k)"
  by (simp add: add_country_def group_of_foldl_add_pdf_mono)

lemma group_of_foldl_add_country_mono:
  "r \<in> set (group_of m k) \<Longrightarrow> r \<in> set (group_of (foldl add_country m ds) k)"
  by (induction ds arbitrary: m) (simp_all add: group_of_add_country_mono)

lemma foldl_add_pdf_groups:
  "path \<in> set paths \<Longrightarrow>
   \<lparr>pdf_path = path, pdf_country = country, pdf_filename = basename path\<rparr>
     \<in> set (group_of (foldl (add_pdf country) m paths) (company_name_of (basename path) country))"
proof (induction paths arbitrary: m)
  case Nil
  then show ?case by simp
next
  case (Cons p ps)
  show ?case
  proof (cases "path = p")
    case True
    have "\<lparr>pdf_path = path, pdf_country = country, pdf_filename = basename path\<rparr>
            \<in> set (group_of (add_pdf country m p) (company_name_of (basename path) country))"
      by (simp add: True add_pdf_def Let_def group_of_dict_append)
    then show ?thesis
      by (simp add: group_of_foldl_add_pdf_mono)
  next
    case False
    then show ?thesis using Cons by simp
  qed
qed

lemma foldl_add_country_groups:
  "d \<in> set ds \<Longrightarrow> path \<in> set (de_pdfs d) \<Longrightarrow>
   \<lparr>pdf_path = path, pdf_country = de_name d, pdf_filename = basename path\<rparr>
     \<in> set (group_of (foldl add_country m ds) (company_name_of (basename path) (de_name d)))"
proof (induction ds arbitrary: m)
  case Nil
  then show ?case by simp
next
  case (Cons e es)
  show ?case
  proof (cases "d = e")
    case True
    have "\<lparr>pdf_path = path, pdf_country = de_name d, pdf_filename = basename path\<rparr>
            \<in> set (group_of (add_country m e) (company_name_of (basename path) (de_name d)))"
      using Cons.prems(2) by (simp add: True add_country_def foldl_add_pdf_groups)
    then show ?thesis
      by (simp add: group_of_foldl_add_country_mono)
  next
    case False
    then show ?thesis using Cons by simp
  qed
qed

lemma collect_groups:
  assumes "d \<in> set entries" "de_is_dir d" "\<not> is_hidden (de_name d)" "path \<in> set (de_pdfs d)"
  shows "\<lparr>pdf_path = path, pdf_country = de_name d, pdf_filename = basename path\<rparr>
           \<in> set (group_of (collect_gcc_company_pdfs (Some entries))
                     (company_name_of (basename path) (de_name d)))"
  using assms by (simp add: collect_gcc_company_pdfs_def foldl_add_country_groups)

lemma fab_name: "company_name_of ''FAB_Report_2023.pdf'' ''UAE'' = ''First Abu Dhabi Bank''"
  by code_simp

lemma randomfile_name: "company_name_of ''randomfile.pdf'' country = ''Randomfile.Pdf''"
proof -
  have "company_code_match ''randomfile.pdf'' = None"
    by code_simp
  moreover have "title (replace_char CHR ''-'' CHR '' '' (takeWhile (\<lambda>c. c \<noteq> CHR ''_'') ''randomfile.pdf''))
      = ''Randomfile.Pdf''"
    by code_simp
  ultimately show ?thesis
    by (simp add: company_name_of_def)
qed

subsection \<open>Claim C4: the names inferred for two files\<close>

text \<open>
  Claim C4, as amended.  A file named \<open>FAB_Report_2023.pdf\<close> in the country directory
  \<open>UAE\<close> is grouped under the company name \<open>First Abu Dhabi Bank\<close>, and a file named
  \<open>randomfile.pdf\<close>, in any country directory, is grouped under the company name
  \<open>Randomfile.Pdf\<close>: the name has no underscore to cut at, so the whole file name, its
  extension included, is title-cased.
\<close>

theorem company_name_inference:
  assumes "d \<in> set entries" "de_is_dir d" "\<not> is_hidden (de_name d)" "path \<in> set (de_pdfs d)"
  shows "(de_name d = ''UAE'' \<and> basename path = ''FAB_Report_2023.pdf'' \<longrightarrow>
            \<lparr>pdf_path = path, pdf_country = ''UAE'', pdf_filename = ''FAB_Report_2023.pdf''\<rparr>
              \<in> set (group_of (collect_gcc_company_pdfs (Some entries)) ''First Abu Dhabi Bank'')) \<and>
         (basename path = ''randomfile.pdf'' \<longrightarrow>
            \<lparr>pdf_path = path, pdf_country = de_name d, pdf_filename = ''randomfile.pdf''\<rparr>
              \<in> set (group_of (collect_gcc_company_pdfs (Some entries)) ''Randomfile.Pdf''))"
  using collect_groups[OF assms] fab_name randomfile_name by auto

text \<open>Both files in the directory \<open>UAE\<close>.\<close>

theorem company_name_inference_witness:
  "\<lparr>pdf_path = ''files/UAE/FAB_Report_2023.pdf'', pdf_country = ''UAE'',
     pdf_filename = ''FAB_Report_2023.pdf''\<rparr>
     \<in> set (group_of (collect_gcc_company_pdfs (Some listing0)) ''First Abu Dhabi Bank'') \<and>
   \<lparr>pdf_path = ''files/UAE/randomfile.pdf'', pdf_country = ''UAE'',
     pdf_filename = ''randomfile.pdf''\<rparr>
     \<in> set (group_of (collect_gcc_company_pdfs (Some listing0)) ''Randomfile.Pdf'')"
proof -
  let ?d = "\<lparr>de_name = ''UAE'', de_is_dir = True,
                de_pdfs = [''files/UAE/FAB_Report_2023.pdf'', ''files/UAE/randomfile.pdf'']\<rparr>"
  have d: "?d \<in> set listing0" "de_is_dir ?d" "\<not> is_hidden (de_name ?d)"
    by (simp_all add: listing0_def is_hidden_def)
  have b: "basename ''files/UAE/FAB_Report_2023.pdf'' = ''FAB_Report_2023.pdf''"
      "basename ''files/UAE/randomfile.pdf'' = ''randomfile.pdf''"
    by code_simp+
  show ?thesis
    using company_name_inference[OF d, of "''files/UAE/FAB_Report_2023.pdf''"]
      company_name_inference[OF d, of "''files/UAE/randomfile.pdf''"] b
    by simp
qed

text \<open>
  Claim C4 as stated fails: the only key the collector makes for \<open>randomfile.pdf\<close> is
  \<open>Randomfile.Pdf\<close>, not \<open>Randomfile\<close>.
\<close>

theorem randomfile_keeps_extension_counterexample:
  "collect_gcc_company_pdfs
     (Some [\<lparr>de_name = ''UAE'', de_is_dir = True, de_pdfs = [''files/UAE/randomfile.pdf'']\<rparr>])
   = [(''Randomfile.Pdf'',
       [\<lparr>pdf_path = ''files/UAE/randomfile.pdf'', pdf_country = ''UAE'',
         pdf_filename = ''randomfile.pdf''\<rparr>])]"
  by code_simp

section \<open>The whole run: the files written\<close>

lemma chunk_questions_loop_files:
  "w_files (snd (snd (snd (chunk_questions_loop openai_client company_code cs st))))
     = w_files (snd (snd (snd st)))"
proof (induction cs arbitrary: st)
  case Nil
  then show ?case by simp
next
  case (Cons c cs)
  obtain all_questions id_counter needed w where st: "st = (all_questions, id_counter, needed, w)"
    by (cases st) auto
  show ?case
  proof (cases "needed \<le> 0")
    case True
    then show ?thesis by (simp add: st)
  next
    case pos: False
    then have False: "\<not> min 5 needed \<le> 0" by simp
    obtain qs ctr w1 where
      g: "generate_questions (ChunkData c) openai_client company_code id_counter (min 5 needed) w
            = ((qs, ctr), w1)"
      by (metis surj_pair)
    have "w_files w1 = w_files w"
      using generate_questions_files[of "ChunkData c" openai_client company_code id_counter "min 5 needed" w] g
      by simp
    then show ?thesis
      using False g Cons.IH[of "(all_questions @ qs, ctr, needed - int (length qs), w1)"]
      by (simp add: st Let_def)
  qed
qed

lemma pdf_loop_files:
  "w_files (snd (snd (pdf_loop fs openai_client company_name company_code quota pdfs st)))
     = w_files (snd (snd st))"
proof (induction pdfs arbitrary: st)
  case Nil
  then show ?case by simp
next
  case (Cons pdf rest)
  obtain all_questions id_counter w where st: "st = (all_questions, id_counter, w)"
    by (cases st) auto
  show ?case
  proof (cases "extract_text_from_pdf fs (pdf_path pdf)")
    case None
    then show ?thesis using Cons.IH[of st] by (simp add: st)
  next
    case (Some document_text)
    show ?thesis
    proof (cases "document_text = [] \<or> quota - int (length all_questions) \<le> 0")
      case True
      then show ?thesis using Some Cons.IH[of st] by (auto simp: st Let_def)
    next
      case False
      define cs where "cs = take 5 (create_chunks_from_text document_text (with_company pdf company_name))"
      obtain a b c w1 where
        inner: "chunk_questions_loop openai_client company_code cs
                  (all_questions, id_counter, quota - int (length all_questions), w) = (a, b, c, w1)"
        by (metis surj_pair)
      have "w_files w1 = w_files w"
        using chunk_questions_loop_files[of openai_client company_code cs
                "(all_questions, id_counter, quota - int (length all_questions), w)"] inner
        by simp
      then show ?thesis
        using Some False inner Cons.IH[of "(a, b, w1)"]
        by (simp add: st Let_def cs_def[symmetric])
    qed
  qed
qed

lemma personnel_step_files:
  "w_files (snd (snd (personnel_step openai_client company_name company_code quota st)))
     = w_files (snd (snd st))"
proof -
  obtain all_questions id_counter w where st: "st = (all_questions, id_counter, w)"
    by (cases st) auto
  obtain qs ctr w1 where
    g: "generate_questions (CompanyName company_name) openai_client company_code id_counter
          (quota - int (length all_questions)) w = ((qs, ctr), w1)"
    by (metis surj_pair)
  have "w_files w1 = w_files w"
    using generate_questions_files[of "CompanyName company_name" openai_client company_code id_counter
            "quota - int (length all_questions)" w] g
    by simp
  then show ?thesis
    using g by (simp add: st personnel_step_def Let_def)
qed

lemma process_company_documents_files:
  assumes "process_company_documents fs company_name pdf_infos output_dir openai_client quota w
             = (Inr qs, w')"
  shows "w_files w' = w_files w @ [(company_file output_dir (company_name, pdf_infos), QuestionLines qs)]"
proof -
  have "fst (process_company_documents fs company_name pdf_infos output_dir openai_client quota w)
          = Inr qs"
    using assms by simp
  note reached = process_company_documents_returned[OF this]
  let ?code = "generate_company_code company_name"
  obtain a b w1 where
    p: "personnel_step openai_client company_name ?code quota
          (pdf_loop fs openai_client company_name ?code quota pdf_infos ([], 1000, w)) = (a, b, w1)"
    by (metis surj_pair)
  have "w_files w1 = w_files w"
    using personnel_step_files[of openai_client company_name ?code quota
            "pdf_loop fs openai_client company_name ?code quota pdf_infos ([], 1000, w)"]
          pdf_loop_files[of fs openai_client company_name ?code quota pdf_infos "([], 1000, w)"] p
    by simp
  then show ?thesis
    using assms p reached
    by (auto simp: process_company_documents_reaches_loop split: if_splits)
qed

lemma company_loop_files:
  assumes "company_loop fs output_dir openai_client quota companies (all_questions, w)
             = ((all_questions', w'), None)"
  shows "\<exists>qss. length qss = length companies \<and> all_questions' = all_questions @ concat qss \<and>
               w_files w' = w_files w @
                 map (\<lambda>(item, qs). (company_file output_dir item, QuestionLines qs)) (zip companies qss)"
  using assms
proof (induction companies arbitrary: all_questions w)
  case Nil
  then show ?case by simp
next
  case (Cons item rest)
  obtain company_name pdf_infos where item: "item = (company_name, pdf_infos)"
    by (cases item) auto
  from Cons.prems obtain qs w1 where
    p: "process_company_documents fs company_name pdf_infos output_dir openai_client quota w = (Inr qs, w1)"
    and rest: "company_loop fs output_dir openai_client quota rest (all_questions @ qs, w1)
             = ((all_questions', w'), None)"
    by (auto simp: item split: sum.splits prod.splits)
  obtain qss where
    qss: "length qss = length rest" "all_questions' = (all_questions @ qs) @ concat qss"
      "w_files w' = w_files w1 @
                 map (\<lambda>(item, qs). (company_file output_dir item, QuestionLines qs)) (zip rest qss)"
    using Cons.IH[OF rest] by blast
  show ?case
    apply (rule exI[of _ "qs # qss"])
    using qss process_company_documents_files[OF p]
    apply (simp add: item)
    done
qed

lemma os_path_join_plain:
  "a \<noteq> [] \<Longrightarrow> last a \<noteq> CHR ''/'' \<Longrightarrow> b = [] \<or> hd b \<noteq> CHR ''/'' \<Longrightarrow>
   os_path_join a b = a @ ''/'' @ b"
  by (auto simp: os_path_join_def)

lemma main_args0: 
  "main args0 None (Some listing1) fs_unreadable client_exact
     = (fst (main args0 None (Some listing1) fs_unreadable client_exact), None)"
proof -
  have "snd (main args0 None (Some listing1) fs_unreadable client_exact) = None"
    by code_simp
  then show ?thesis
    by (metis prod.collapse)
qed

subsection \<open>Claim C5: where the output goes\<close>

text \<open>
  Claim C5, as amended.  In every run that has an API key, finds at least one PDF and
  ends without an exception, the files written are, in this order: for each company its
  questions, at \<open>os.path.join(root, country, name + "_questions.jsonl")\<close> with the
  country of the company's first PDF and the company name with its spaces replaced by
  underscores; the questions of all companies together, at
  \<open>os.path.join(root, "GCC_market_dataset.jsonl")\<close>; and the summary table, at
  \<open>os.path.join(root, "processing_summary.csv")\<close>.  (\<open>os.path.join(a, b)\<close> is
  \<open>a/b\<close> when \<open>a\<close> is not empty and does not end in a slash and \<open>b\<close> does not begin
  with one.)
\<close>

theorem run_writes_its_files:
  assumes "api_key_of a env_api_key = Some key" "key \<noteq> []"
    and "collect_gcc_company_pdfs listing \<noteq> []"
    and "main a env_api_key listing fs openai_client = (w, None)"
  shows "\<exists>qss summary_data.
           length qss = length (collect_gcc_company_pdfs listing) \<and>
           w_files w =
             map (\<lambda>(item, qs). (company_file (ar_output_dir a) item, QuestionLines qs))
                 (zip (collect_gcc_company_pdfs listing) qss) @
             [(os_path_join (ar_output_dir a) ''GCC_market_dataset.jsonl'', QuestionLines (concat qss)),
              (os_path_join (ar_output_dir a) ''processing_summary.csv'', SummaryTable summary_data)]"
proof -
  let ?w0 = "\<lparr>w_calls = [], w_files = []\<rparr>"
  let ?companies = "collect_gcc_company_pdfs listing"
  obtain all_questions w1 err where
    loop: "company_loop fs (ar_output_dir a) openai_client (ar_questions_per_company a) ?companies ([], ?w0)
             = ((all_questions, w1), err)"
    by (metis surj_pair)
  have err: "err = None"
    using assms loop by (auto simp: main_def Let_def split: option.splits sum.splits if_splits)
  obtain qss where
    qss: "length qss = length ?companies" "all_questions = [] @ concat qss"
      "w_files w1 = w_files ?w0 @
                 map (\<lambda>(item, qs). (company_file (ar_output_dir a) item, QuestionLines qs)) (zip ?companies qss)"
    using company_loop_files[OF loop[unfolded err]] by blast
  obtain summary_data where
    rows: "summary_rows all_questions ?companies = Inr summary_data"
    using assms loop err by (auto simp: main_def Let_def split: option.splits sum.splits if_splits)
  have "w = w1\<lparr>w_files := w_files w1 @
                 [(os_path_join (ar_output_dir a) ''GCC_market_dataset.jsonl'', QuestionLines all_questions),
                  (os_path_join (ar_output_dir a) ''processing_summary.csv'', SummaryTable summary_data)]\<rparr>"
    using assms loop err rows by (auto simp: main_def Let_def split: option.splits sum.splits if_splits)
  then show ?thesis
    using qss by auto
qed

text \<open>A run over one company with the output directory \<open>output\<close>.\<close>

theorem run_writes_its_files_witness:
  "api_key_of args0 None = Some ''sk-test'' \<and>
   collect_gcc_company_pdfs (Some listing1) \<noteq> [] \<and>
   snd (main args0 None (Some listing1) fs_unreadable client_exact) = None \<and>
   (\<exists>qss summary_data.
      length qss = length (collect_gcc_company_pdfs (Some listing1)) \<and>
      w_files (fst (main args0 None (Some listing1) fs_unreadable client_exact)) =
        map (\<lambda>(item, qs). (company_file ''output'' item, QuestionLines qs))
            (zip (collect_gcc_company_pdfs (Some listing1)) qss) @
        [(''output/GCC_market_dataset.jsonl'', QuestionLines (concat qss)),
         (''output/processing_summary.csv'', SummaryTable summary_data)])"
proof -
  have key: "api_key_of args0 None = Some ''sk-test''" "''sk-test'' \<noteq> []"
    by (simp_all add: api_key_of_def args0_def)
  have found: "collect_gcc_company_pdfs (Some listing1) \<noteq> []"
    by code_simp
  have ended: "snd (main args0 None (Some listing1) fs_unreadable client_exact) = None"
    by code_simp
  have paths: "os_path_join ''output'' ''GCC_market_dataset.jsonl'' = ''output/GCC_market_dataset.jsonl''"
     "os_path_join ''output'' ''processing_summary.csv'' = ''output/processing_summary.csv''"
    by code_simp+
  have out: "ar_output_dir args0 = ''output''"
    by (simp add: args0_def)
  show ?thesis
    using run_writes_its_files[OF key found main_args0] key(1) found ended
    by (simp add: paths out)
qed

text \<open>
  Claim C5 as stated fails: the run writes no file \<open>combined_dataset.jsonl\<close>; the merged
  questions go to \<open>GCC_market_dataset.jsonl\<close>.
\<close>

theorem combined_file_name_counterexample:
  "map fst (w_files (fst (main args0 None (Some listing1) fs_unreadable client_exact)))
   = [''output/UAE/First_Abu_Dhabi_Bank_questions.jsonl'',
      ''output/GCC_market_dataset.jsonl'',
      ''output/processing_summary.csv'']"
  by code_simp

end
